theory Spec2Isabelle
  imports Complex_Main "HOL-Library.Word"
begin

section \<open>JavaScript values\<close>

text \<open>
  The sources are TypeScript that only runs after down-level compilation: the
  accumulator declares \<open>complete\<close>, \<open>sync\<close>, \<open>received\<close>, \<open>decoder\<close> and \<open>buffer\<close>
  with \<open>const\<close> and assigns them afterwards (one of them, \<open>const decoder;\<close>, has no
  initialiser at all), which is only executable when \<open>const\<close> is emitted as \<open>var\<close>.
  They are modelled as the mutable variables the emitted program has.

  Numbers are IEEE doubles in the program. Here a finite number is a rational, so
  arithmetic is exact: rounding of decimal fractions, overflow to infinity and the
  sign of zero are not modelled. \<open>NaN\<close> and the two infinities are values of their own,
  with the comparisons JavaScript gives them.

  Strings are lists of 8-bit characters (the code units below 256).
\<close>

type_synonym byte = "8 word"

datatype number = NaN | NegInf | Fin rat | PosInf

datatype jsval = JUndefined | JNull | JBool bool | JNum number | JStr string | JBuffer "byte list"

text \<open>\<open>a > b\<close>: false as soon as one side is \<open>NaN\<close>.\<close>

fun js_gt :: "number \<Rightarrow> number \<Rightarrow> bool" where
  "js_gt NaN _ = False"
| "js_gt _ NaN = False"
| "js_gt (Fin a) (Fin b) = (a > b)"
| "js_gt PosInf PosInf = False"
| "js_gt PosInf _ = True"
| "js_gt _ PosInf = False"
| "js_gt NegInf _ = False"
| "js_gt _ NegInf = True"

text \<open>\<open>a !== b\<close> on two numbers: \<open>NaN\<close> differs from everything, itself included.\<close>

fun js_neq :: "number \<Rightarrow> number \<Rightarrow> bool" where
  "js_neq NaN _ = True"
| "js_neq _ NaN = True"
| "js_neq a b = (a \<noteq> b)"

text \<open>\<open>a * b\<close>.\<close>

fun js_mul :: "number \<Rightarrow> number \<Rightarrow> number" where
  "js_mul NaN _ = NaN"
| "js_mul _ NaN = NaN"
| "js_mul (Fin a) (Fin b) = Fin (a * b)"
| "js_mul (Fin a) PosInf = (if a = 0 then NaN else if a > 0 then PosInf else NegInf)"
| "js_mul (Fin a) NegInf = (if a = 0 then NaN else if a > 0 then NegInf else PosInf)"
| "js_mul PosInf (Fin b) = (if b = 0 then NaN else if b > 0 then PosInf else NegInf)"
| "js_mul NegInf (Fin b) = (if b = 0 then NaN else if b > 0 then NegInf else PosInf)"
| "js_mul PosInf PosInf = PosInf"
| "js_mul NegInf NegInf = PosInf"
| "js_mul PosInf NegInf = NegInf"
| "js_mul NegInf PosInf = NegInf"

text \<open>\<open>Math.floor\<close>.\<close>

fun js_floor :: "number \<Rightarrow> number" where
  "js_floor (Fin a) = Fin (of_int \<lfloor>a\<rfloor>)"
| "js_floor x = x"

text \<open>\<open>a << n\<close>: the left operand as a 32-bit integer, the shift count modulo 32, the
  result read as a signed 32-bit integer.\<close>

definition js_shl :: "int \<Rightarrow> nat \<Rightarrow> int" where
  "js_shl a n = sint (push_bit (n mod 32) (word_of_int a :: 32 word))"

subsection \<open>Characters and strings\<close>

definition is_digit :: "char \<Rightarrow> bool" where
  "is_digit c \<longleftrightarrow> c \<in> set ''0123456789''"

text \<open>White space and line terminators among the code units below 256: tab, line feed,
  vertical tab, form feed, carriage return, space and no-break space.\<close>

definition is_space :: "char \<Rightarrow> bool" where
  "is_space c \<longleftrightarrow> c \<in> {CHR 0x09, CHR 0x0A, CHR 0x0B, CHR 0x0C, CHR 0x0D, CHR 0x20, CHR 0xA0}"

definition digit_val :: "char \<Rightarrow> nat" where
  "digit_val c = of_char c - 48"

definition digits_val :: "string \<Rightarrow> nat" where
  "digits_val ds = foldl (\<lambda>n c. 10 * n + digit_val c) 0 ds"

text \<open>\<open>String.prototype.toLowerCase\<close> on code units below 256: \<open>A\<close>..\<open>Z\<close> and the
  capital letters \<open>0xC0\<close>..\<open>0xDE\<close> (without the multiplication sign \<open>0xD7\<close>) move up
  by 32.\<close>

definition lower_char :: "char \<Rightarrow> char" where
  "lower_char c =
     (let n = (of_char c :: nat)
      in if (65 \<le> n \<and> n \<le> 90) \<or> (192 \<le> n \<and> n \<le> 222 \<and> n \<noteq> 215)
         then char_of (n + 32) else c)"

definition toLowerCase :: "string \<Rightarrow> string" where
  "toLowerCase s = map lower_char s"

text \<open>\<open>String.prototype.toUpperCase\<close> on code units below 256. The upper case of
  \<open>0xB5\<close>, \<open>0xDF\<close> and \<open>0xFF\<close> lies outside this range; the model leaves these three
  as they are. The function is only used to build message texts.\<close>

definition upper_char :: "char \<Rightarrow> char" where
  "upper_char c =
     (let n = (of_char c :: nat)
      in if (97 \<le> n \<and> n \<le> 122) \<or> (224 \<le> n \<and> n \<le> 254 \<and> n \<noteq> 247)
         then char_of (n - 32) else c)"

definition toUpperCase :: "string \<Rightarrow> string" where
  "toUpperCase s = map upper_char s"

text \<open>The sign that \<open>parseInt\<close> and \<open>parseFloat\<close> read in front of the digits.\<close>

fun split_sign :: "string \<Rightarrow> rat \<times> string" where
  "split_sign [] = (1, [])"
| "split_sign (c # r) =
     (if c = CHR ''-'' then (-1, r) else if c = CHR ''+'' then (1, r) else (1, c # r))"

text \<open>\<open>parseInt(s, 10)\<close>: leading white space is skipped, a sign is read, then the
  longest run of decimal digits; no digit gives \<open>NaN\<close>.\<close>

definition parseInt :: "string \<Rightarrow> number" where
  "parseInt s =
     (let (sign, u) = split_sign (dropWhile is_space s);
          ds = takeWhile is_digit u
      in if ds = [] then NaN else Fin (sign * of_nat (digits_val ds)))"

text \<open>\<open>parseFloat(s)\<close> on decimal literals without exponent: white space, sign, digits,
  and a fraction after a dot. The size parser only calls it on the first group of
  its regular expression, which has this shape; exponents and \<open>Infinity\<close>, which
  \<open>parseFloat\<close> also reads, cannot reach it and are not modelled.\<close>

definition parseFloat :: "string \<Rightarrow> number" where
  "parseFloat s =
     (let (sign, u) = split_sign (dropWhile is_space s);
          ip = takeWhile is_digit u;
          r = dropWhile is_digit u;
          fp = (case r of [] \<Rightarrow> [] | c # r' \<Rightarrow> if c = CHR ''.'' then takeWhile is_digit r' else [])
      in if ip = [] \<and> fp = [] then NaN
         else Fin (sign * (of_nat (digits_val ip) + of_nat (digits_val fp) / 10 ^ length fp)))"

section \<open>The size unit parser (bytes)\<close>

text \<open>
  \<^verbatim>\<open>const map = { b: 1, kb: 1 << 10, mb: 1 << 20, gb: 1 << 30, tb: (1 << 30) * 1024 };\<close>
  A key that is not in the object reads as \<open>undefined\<close>, here \<open>None\<close>.
\<close>

definition map_unit :: "string \<Rightarrow> number option" where
  "map_unit unit =
     (if unit = ''b'' then Some (Fin 1)
      else if unit = ''kb'' then Some (Fin (of_int (js_shl 1 10)))
      else if unit = ''mb'' then Some (Fin (of_int (js_shl 1 20)))
      else if unit = ''gb'' then Some (Fin (of_int (js_shl 1 30)))
      else if unit = ''tb'' then Some (js_mul (Fin (of_int (js_shl 1 30))) (Fin 1024))
      else None)"

text \<open>
  \<^verbatim>\<open>const parseRegExp = /^((-|\+)?(\d+(?:\.\d+)?)) *(kb|mb|gb|tb)$/i;\<close>
  The expression is anchored at both ends and each of its parts is determined by the
  next character, so matching is a single pass: an optional sign, the digits, a
  fraction when a dot and at least one digit follow, spaces, and then the rest must
  be one of the four units in any letter case. The result holds group 1 (sign and
  magnitude) and group 4 (the unit as written).

  Under the flag \<open>i\<close> a character of the input matches a letter of the pattern when
  both have the same upper case; no code unit other than the letter itself and its
  capital has the upper case \<open>K\<close>, \<open>M\<close>, \<open>G\<close>, \<open>T\<close> or \<open>B\<close>.
\<close>

definition canonicalize :: "char \<Rightarrow> char" where
  "canonicalize c = (let n = (of_char c :: nat) in if 97 \<le> n \<and> n \<le> 122 then char_of (n - 32) else c)"

text \<open>The optional groups \<^verbatim>\<open>(-|\+)?\<close> and \<^verbatim>\<open>(?:\.\d+)?\<close>: what they match and what is left.\<close>

fun regexp_sign :: "string \<Rightarrow> string \<times> string" where
  "regexp_sign [] = ([], [])"
| "regexp_sign (c # r) = (if c = CHR ''-'' \<or> c = CHR ''+'' then ([c], r) else ([], c # r))"

fun regexp_fraction :: "string \<Rightarrow> string \<times> string" where
  "regexp_fraction [] = ([], [])"
| "regexp_fraction (c # r) =
     (if c = CHR ''.'' \<and> takeWhile is_digit r \<noteq> []
      then (c # takeWhile is_digit r, dropWhile is_digit r) else ([], c # r))"

definition parseRegExp_exec :: "string \<Rightarrow> (string \<times> string) option" where
  "parseRegExp_exec s =
     (let (sg, r0) = regexp_sign s;
          ip = takeWhile is_digit r0;
          (fr, r2) = regexp_fraction (dropWhile is_digit r0);
          u = dropWhile (\<lambda>c. c = CHR '' '') r2
      in if ip \<noteq> [] \<and> map canonicalize u \<in> {''KB'', ''MB'', ''GB'', ''TB''}
         then Some (sg @ ip @ fr, u) else None)"

text \<open>
  \<^verbatim>\<open>
  export function parse(val: string | number) {
    if (typeof val === "number" && !isNaN(val)) { return val; }
    if (typeof val !== "string") { return null; }
    const results = parseRegExp.exec(val);
    let floatValue; let unit = "b";
    if (!results) { floatValue = parseInt(val, 10); unit = "b"; }
    else { floatValue = parseFloat(results[1]); unit = results[4].toLowerCase(); }
    return Math.floor(map[unit] * floatValue);
  }
  \<close>
  \<open>undefined * x\<close> is \<open>NaN\<close>.
\<close>

definition parse :: "jsval \<Rightarrow> jsval" where
  "parse val =
     (case val of
        JNum n \<Rightarrow> if n \<noteq> NaN then JNum n else JNull
      | JStr s \<Rightarrow>
          (let (floatValue, unit) =
                 (case parseRegExp_exec s of
                    None \<Rightarrow> (parseInt s, ''b'')
                  | Some (g1, g4) \<Rightarrow> (parseFloat g1, toLowerCase g4))
           in JNum (js_floor (case map_unit unit of None \<Rightarrow> NaN | Some m \<Rightarrow> js_mul m floatValue)))
      | _ \<Rightarrow> JNull)"

section \<open>Errors, streams and decoders\<close>

text \<open>
  Modelled from the spec: \<open>createHttpError\<close> of \<open>lib/utils\<close> is not among the sources.
  Every failure is "tagged with a machine-readable kind string and the contextual
  fields" it is created with, so an error made by it is the triple of status, message
  and properties it was given. \<open>PlainError\<close> is any other \<open>Error\<close> object (one emitted
  by the stream, one thrown by the decoder library or by a collaborator). The
  \<open>http-errors\<close> package is outside the repository; its \<open>createError(status, message,
  props)\<close> is modelled in the same way, and \<open>createError(status, err, props)\<close> on an
  existing error as \<open>WrapError\<close>, holding the arguments of the call.
\<close>

datatype error =
    HttpError nat string "(string \<times> jsval) list"
  | PlainError string
  | WrapError nat error "(string \<times> jsval) list"

definition createHttpError :: "nat \<Rightarrow> string \<Rightarrow> (string \<times> jsval) list \<Rightarrow> error" where
  "createHttpError status msg props = HttpError status msg props"

text \<open>The property \<open>type\<close> of an error object; \<open>createError(status, err, props)\<close>
  hands back \<open>err\<close> itself with the properties added, so those of \<open>err\<close> stay
  readable where \<open>props\<close> does not set them.\<close>

fun error_type :: "error \<Rightarrow> jsval" where
  "error_type (HttpError status msg props) =
     (case map_of props ''type'' of None \<Rightarrow> JUndefined | Some v \<Rightarrow> v)"
| "error_type (PlainError msg) = JUndefined"
| "error_type (WrapError status e props) =
     (case map_of props ''type'' of None \<Rightarrow> error_type e | Some v \<Rightarrow> v)"

text \<open>A variable of type \<open>number | null\<close> written into an object literal.\<close>

fun num_or_null :: "number option \<Rightarrow> jsval" where
  "num_or_null None = JNull"
| "num_or_null (Some n) = JNum n"

text \<open>
  What the code reads and changes of the stream object: \<open>stream._decoder\<close> and
  \<open>stream._readableState\<close> (their truthiness), whether \<open>unpipe\<close> and \<open>pause\<close> are
  functions, and the effect of calling \<open>unpipe()\<close>, \<open>pause()\<close> and \<open>resume()\<close>.
\<close>

record readable_state =
  rs_encoding :: bool
  rs_decoder :: bool

record stream =
  stream_decoder :: bool
  readableState :: "readable_state option"
  has_unpipe :: bool
  has_pause :: bool
  unpiped :: bool
  paused :: bool

text \<open>The events a stream emits, and the four closures of \<open>readStream\<close> that listen.\<close>

datatype event = Aborted | Close | Data "byte list" | End | Error error

fun event_name :: "event \<Rightarrow> string" where
  "event_name Aborted = ''aborted''"
| "event_name Close = ''close''"
| "event_name (Data chunk) = ''data''"
| "event_name End = ''end''"
| "event_name (Error err) = ''error''"

datatype handler = OnAborted | Cleanup | OnData | OnEnd

text \<open>
  A decoder object of \<open>iconv-lite\<close>: its internal state, \<open>write(chunk)\<close>, which returns
  text and moves the state, and \<open>end()\<close>, which returns trailing text or nothing.
  The library is a parameter of the model: \<open>iconv.getDecoder(encoding)\<close> either
  returns a decoder or throws an \<open>Error\<close> with a message.
\<close>

record 'd decoder =
  dec_state :: 'd
  dec_write :: "'d \<Rightarrow> byte list \<Rightarrow> string \<times> 'd"
  dec_end :: "'d \<Rightarrow> string option"

datatype 'd lookup = Found "'d decoder" | Throws string

text \<open>\<^verbatim>\<open>const ICONV_ENCODING_MESSAGE_REGEXP = /^Encoding not recognized: /;\<close>\<close>

definition ICONV_ENCODING_MESSAGE_REGEXP_test :: "string \<Rightarrow> bool" where
  "ICONV_ENCODING_MESSAGE_REGEXP_test msg \<longleftrightarrow>
     take (length ''Encoding not recognized: '') msg = ''Encoding not recognized: ''"

text \<open>
  \<^verbatim>\<open>
  function getDecoder(encoding: string) {
    if (!encoding) return null;
    try { return iconv.getDecoder(encoding); }
    catch (e) {
      if (!ICONV_ENCODING_MESSAGE_REGEXP.test(e.message)) throw e;
      throw createHttpError(415, "specified encoding unsupported",
        { encoding: encoding, type: "encoding.unsupported" });
    }
  }
  \<close>
  \<open>None\<close> is \<open>null\<close> or \<open>undefined\<close>; the empty string is falsy as well. \<open>Inl\<close> is a throw.
\<close>

definition getDecoder :: "(string \<Rightarrow> 'd lookup) \<Rightarrow> string option \<Rightarrow> error + 'd decoder option" where
  "getDecoder iconv encoding =
     (case encoding of
        None \<Rightarrow> Inr None
      | Some enc \<Rightarrow>
          if enc = [] then Inr None
          else (case iconv enc of
                  Found d \<Rightarrow> Inr (Some d)
                | Throws msg \<Rightarrow>
                    if \<not> ICONV_ENCODING_MESSAGE_REGEXP_test msg then Inl (PlainError msg)
                    else Inl (createHttpError 415 ''specified encoding unsupported''
                                [(''encoding'', JStr enc), (''type'', JStr ''encoding.unsupported'')])))"

section \<open>The bounded stream accumulator (raw-body)\<close>

text \<open>
  The variables of one call of \<open>readStream\<close> and what it shares with its
  surroundings: the stream, the listeners this call has attached to it, the queue of
  \<open>process.nextTick\<close> (the arguments of each scheduled \<open>invokeCallback\<close>), the
  \<open>TypeError\<close>s a handler has thrown, and the state \<open>world\<close> that the caller's callback
  works on. \<open>buffer\<close> is \<open>undefined\<close> until it is initialised, then a string (with a
  decoder) or an array of chunks, and \<open>null\<close> after \<open>cleanup\<close>. \<open>received\<close> is written
  before anything reads it and starts at 0 here.
\<close>

datatype payload = Text string | Bytes "byte list"

datatype buffer = BUndefined | BNull | BString string | BArray "byte list list"

type_synonym args = "error option \<times> payload option"

record ('d, 'w) reader =
  stream :: stream
  listeners :: "(string \<times> handler) list"
  length' :: "number option"
  limit :: "number option"
  complete :: bool
  sync :: bool
  received :: nat
  decoder :: "'d decoder option"
  buffer :: buffer
  pending :: "args list"
  uncaught :: "string list"
  world :: 'w

type_synonym ('d, 'w) callback = "args \<Rightarrow> ('d, 'w) reader \<Rightarrow> ('d, 'w) reader"

text \<open>\<open>stream.on(name, fn)\<close> appends a listener; \<open>stream.removeListener(name, fn)\<close> takes
  out the one added last.\<close>

definition on :: "string \<Rightarrow> handler \<Rightarrow> ('d, 'w) reader \<Rightarrow> ('d, 'w) reader" where
  "on name h r = r\<lparr>listeners := listeners r @ [(name, h)]\<rparr>"

definition removeListener :: "string \<Rightarrow> handler \<Rightarrow> ('d, 'w) reader \<Rightarrow> ('d, 'w) reader" where
  "removeListener name h r = r\<lparr>listeners := rev (remove1 (name, h) (rev (listeners r)))\<rparr>"

text \<open>
  \<^verbatim>\<open>
  function halt(stream: any) {
    if (typeof stream.unpipe === "function") { stream.unpipe(); }
    if (typeof stream.pause === "function") { stream.pause(); }
  }
  \<close>
\<close>

definition halt :: "stream \<Rightarrow> stream" where
  "halt s =
     (let s1 = (if has_unpipe s then s\<lparr>unpiped := True\<rparr> else s)
      in if has_pause s1 then s1\<lparr>paused := True\<rparr> else s1)"

text \<open>\<open>stream.resume()\<close>.\<close>

definition resume :: "stream \<Rightarrow> stream" where
  "resume s = s\<lparr>paused := False\<rparr>"

text \<open>
  \<^verbatim>\<open>
  function cleanup() {
    buffer = null;
    stream.removeListener("aborted", onAborted);
    stream.removeListener("data", onData);
    stream.removeListener("end", onEnd);
    stream.removeListener("error", onEnd);
    stream.removeListener("close", cleanup);
  }
  \<close>
\<close>

definition cleanup :: "('d, 'w) reader \<Rightarrow> ('d, 'w) reader" where
  "cleanup r =
     removeListener ''close'' Cleanup
       (removeListener ''error'' OnEnd
         (removeListener ''end'' OnEnd
           (removeListener ''data'' OnData
             (removeListener ''aborted'' OnAborted (r\<lparr>buffer := BNull\<rparr>)))))"

text \<open>
  \<^verbatim>\<open>
  function invokeCallback() {
    cleanup();
    if (args[0]) { halt(stream); }
    callback.apply(null, args);
  }
  \<close>
\<close>

definition invokeCallback :: "('d, 'w) callback \<Rightarrow> args \<Rightarrow> ('d, 'w) reader \<Rightarrow> ('d, 'w) reader" where
  "invokeCallback callback a r =
     (let r1 = cleanup r;
          r2 = (if fst a \<noteq> None then r1\<lparr>stream := halt (stream r1)\<rparr> else r1)
      in callback a r2)"

text \<open>
  \<^verbatim>\<open>
  function done(...args: any[]) {
    complete = true;
    if (sync) { process.nextTick(invokeCallback); } else { invokeCallback(); }
  }
  \<close>
\<close>

definition done' :: "('d, 'w) callback \<Rightarrow> args \<Rightarrow> ('d, 'w) reader \<Rightarrow> ('d, 'w) reader" where
  "done' callback a r =
     (let r1 = r\<lparr>complete := True\<rparr>
      in if sync r1 then r1\<lparr>pending := pending r1 @ [a]\<rparr> else invokeCallback callback a r1)"

text \<open>
  \<^verbatim>\<open>
  function onAborted() {
    if (complete) return;
    done(createHttpError(400, "request aborted", { code: "ECONNABORTED",
      expected: length, length: length, received: received, type: "request.aborted" }));
  }
  \<close>
\<close>

definition onAborted :: "('d, 'w) callback \<Rightarrow> ('d, 'w) reader \<Rightarrow> ('d, 'w) reader" where
  "onAborted callback r =
     (if complete r then r
      else done' callback
             (Some (createHttpError 400 ''request aborted''
                      [(''code'', JStr ''ECONNABORTED''),
                       (''expected'', num_or_null (length' r)),
                       (''length'', num_or_null (length' r)),
                       (''received'', JNum (Fin (of_nat (received r)))),
                       (''type'', JStr ''request.aborted'')]), None) r)"

text \<open>
  \<^verbatim>\<open>
  function onData(chunk) {
    if (complete) return;
    received += chunk.length;
    if (limit !== null && received > limit) {
      done(createHttpError(413, "request entity too large",
        { limit: limit, received: received, type: "entity.too.large" }));
    } else if (decoder) { buffer += decoder.write(chunk); }
    else { buffer.push(chunk); }
  }
  \<close>
  \<open>buffer += text\<close> on \<open>null\<close> or \<open>undefined\<close> makes a string that starts with that word;
  on an array it makes a string as well, which is not modelled and recorded as a
  thrown error like \<open>push\<close> on something that is no array. None of this happens:
  see \<open>run_invariant\<close> below.
\<close>

definition onData :: "('d, 'w) callback \<Rightarrow> byte list \<Rightarrow> ('d, 'w) reader \<Rightarrow> ('d, 'w) reader" where
  "onData callback chunk r =
     (if complete r then r
      else
        let r1 = r\<lparr>received := received r + length chunk\<rparr>
        in if (case limit r1 of None \<Rightarrow> False | Some lm \<Rightarrow> js_gt (Fin (of_nat (received r1))) lm)
           then done' callback
                  (Some (createHttpError 413 ''request entity too large''
                           [(''limit'', num_or_null (limit r1)),
                            (''received'', JNum (Fin (of_nat (received r1)))),
                            (''type'', JStr ''entity.too.large'')]), None) r1
           else (case decoder r1 of
                   Some d \<Rightarrow>
                     (let (out, st) = dec_write d (dec_state d) chunk;
                          r2 = r1\<lparr>decoder := Some (d\<lparr>dec_state := st\<rparr>)\<rparr>
                      in case buffer r2 of
                           BString b \<Rightarrow> r2\<lparr>buffer := BString (b @ out)\<rparr>
                         | BNull \<Rightarrow> r2\<lparr>buffer := BString (''null'' @ out)\<rparr>
                         | BUndefined \<Rightarrow> r2\<lparr>buffer := BString (''undefined'' @ out)\<rparr>
                         | BArray chunks \<Rightarrow> r2\<lparr>uncaught := uncaught r2 @ [''TypeError'']\<rparr>)
                 | None \<Rightarrow>
                     (case buffer r1 of
                        BArray chunks \<Rightarrow> r1\<lparr>buffer := BArray (chunks @ [chunk])\<rparr>
                      | _ \<Rightarrow> r1\<lparr>uncaught := uncaught r1 @ [''TypeError'']\<rparr>)))"

text \<open>
  \<^verbatim>\<open>
  function onEnd(err) {
    if (complete) return;
    if (err) return done(err);
    if (length !== null && received !== length) {
      done(createHttpError(400, "request size did not match content length",
        { expected: length, length: length, received: received, type: "request.size.invalid" }));
    } else {
      const string = decoder ? buffer + (decoder.end() || "") : Buffer.concat(buffer);
      done(null, string);
    }
  }
  \<close>
  The argument is the error of an \<open>error\<close> event and absent on \<open>end\<close>.
\<close>

definition onEnd :: "('d, 'w) callback \<Rightarrow> error option \<Rightarrow> ('d, 'w) reader \<Rightarrow> ('d, 'w) reader" where
  "onEnd callback err r =
     (if complete r then r
      else case err of
        Some e \<Rightarrow> done' callback (Some e, None) r
      | None \<Rightarrow>
          if (case length' r of None \<Rightarrow> False | Some len \<Rightarrow> js_neq (Fin (of_nat (received r))) len)
          then done' callback
                 (Some (createHttpError 400 ''request size did not match content length''
                          [(''expected'', num_or_null (length' r)),
                           (''length'', num_or_null (length' r)),
                           (''received'', JNum (Fin (of_nat (received r)))),
                           (''type'', JStr ''request.size.invalid'')]), None) r
          else (case decoder r of
                  Some d \<Rightarrow>
                    (let tail = (case dec_end d (dec_state d) of None \<Rightarrow> [] | Some t \<Rightarrow> t)
                     in case buffer r of
                          BString b \<Rightarrow> done' callback (None, Some (Text (b @ tail))) r
                        | BNull \<Rightarrow> done' callback (None, Some (Text (''null'' @ tail))) r
                        | BUndefined \<Rightarrow> done' callback (None, Some (Text (''undefined'' @ tail))) r
                        | BArray chunks \<Rightarrow> r\<lparr>uncaught := uncaught r @ [''TypeError'']\<rparr>)
                | None \<Rightarrow>
                    (case buffer r of
                       BArray chunks \<Rightarrow> done' callback (None, Some (Bytes (concat chunks))) r
                     | _ \<Rightarrow> r\<lparr>uncaught := uncaught r @ [''TypeError'']\<rparr>)))"

text \<open>
  \<^verbatim>\<open>
  function readStream(stream, encoding, length, limit, callback) {
    const complete = false; const sync = true;
    if (limit !== null && length !== null && length > limit) {
      return done(createHttpError(413, new Error("request entity too large"),
        { expected: length, length: length, limit: limit, type: "entity.too.large" }));
    }
    const state = (stream as any)._readableState;
    if ((stream as any)._decoder || (state && (state.encoding || state.decoder))) {
      return done(createHttpError(500, new Error("stream encoding should not be set"),
        { type: "stream.encoding.set" }));
    }
    const received = 0; const decoder;
    try { decoder = getDecoder(encoding); } catch (err) { return done(err); }
    const buffer = decoder ? "" : [];
    stream.on("aborted", onAborted); stream.on("close", cleanup);
    stream.on("data", onData); stream.on("end", onEnd); stream.on("error", onEnd);
    sync = false;
    ...
  }
  \<close>
  The value is the state in which the call returns.
\<close>

definition readStream ::
  "(string \<Rightarrow> 'd lookup) \<Rightarrow> ('d, 'w) callback \<Rightarrow> stream \<Rightarrow> string option \<Rightarrow>
   number option \<Rightarrow> number option \<Rightarrow> 'w \<Rightarrow> ('d, 'w) reader" where
  "readStream iconv callback stream0 encoding length0 limit0 w =
     (let r = \<lparr>stream = stream0, listeners = [], length' = length0, limit = limit0,
               complete = False, sync = True, received = 0, decoder = None,
               buffer = BUndefined, pending = [], uncaught = [], world = w\<rparr>
      in if (case (limit0, length0) of (Some lm, Some len) \<Rightarrow> js_gt len lm | _ \<Rightarrow> False)
         then done' callback
                (Some (createHttpError 413 ''request entity too large''
                         [(''expected'', num_or_null length0),
                          (''length'', num_or_null length0),
                          (''limit'', num_or_null limit0),
                          (''type'', JStr ''entity.too.large'')]), None) r
         else if stream_decoder stream0 \<or>
                 (case readableState stream0 of None \<Rightarrow> False
                  | Some st \<Rightarrow> rs_encoding st \<or> rs_decoder st)
         then done' callback
                (Some (createHttpError 500 ''stream encoding should not be set''
                         [(''type'', JStr ''stream.encoding.set'')]), None) r
         else (case getDecoder iconv encoding of
                 Inl err \<Rightarrow> done' callback (Some err, None) r
               | Inr dec \<Rightarrow>
                   (let r1 = r\<lparr>received := 0, decoder := dec,
                               buffer := (if dec \<noteq> None then BString [] else BArray [])\<rparr>;
                        r2 = on ''aborted'' OnAborted r1;
                        r3 = on ''close'' Cleanup r2;
                        r4 = on ''data'' OnData r3;
                        r5 = on ''end'' OnEnd r4;
                        r6 = on ''error'' OnEnd r5
                    in r6\<lparr>sync := False\<rparr>)))"

subsection \<open>The stream and the event loop as the accumulator sees them\<close>

text \<open>
  A listener is called with the arguments of the event. \<open>onData\<close> is attached to
  \<open>data\<close> only and \<open>onEnd\<close> to \<open>end\<close> and \<open>error\<close>, so \<open>onData\<close> always gets a chunk and
  \<open>onEnd\<close> an error or nothing.
\<close>

fun call_handler :: "('d, 'w) callback \<Rightarrow> handler \<Rightarrow> event \<Rightarrow> ('d, 'w) reader \<Rightarrow> ('d, 'w) reader" where
  "call_handler callback OnAborted ev r = onAborted callback r"
| "call_handler callback Cleanup ev r = cleanup r"
| "call_handler callback OnData (Data chunk) r = onData callback chunk r"
| "call_handler callback OnData ev r = r"
| "call_handler callback OnEnd (Error err) r = onEnd callback (Some err) r"
| "call_handler callback OnEnd ev r = onEnd callback None r"

text \<open>\<open>stream.emit\<close>: the listeners attached under the name of the event when it is
  emitted are called in the order in which they were added.\<close>

definition emit :: "('d, 'w) callback \<Rightarrow> event \<Rightarrow> ('d, 'w) reader \<Rightarrow> ('d, 'w) reader" where
  "emit callback ev r =
     foldl (\<lambda>r' h. call_handler callback h ev r') r
       (map snd (filter (\<lambda>l. fst l = event_name ev) (listeners r)))"

text \<open>The next tick of the event loop runs the scheduled \<open>invokeCallback\<close>s.\<close>

definition tick :: "('d, 'w) callback \<Rightarrow> ('d, 'w) reader \<Rightarrow> ('d, 'w) reader" where
  "tick callback r = foldl (\<lambda>r' a. invokeCallback callback a r') (r\<lparr>pending := []\<rparr>) (pending r)"

datatype signal = Emit event | Tick

fun step :: "('d, 'w) callback \<Rightarrow> signal \<Rightarrow> ('d, 'w) reader \<Rightarrow> ('d, 'w) reader" where
  "step callback (Emit ev) r = emit callback ev r"
| "step callback Tick r = tick callback r"

definition run :: "('d, 'w) callback \<Rightarrow> ('d, 'w) reader \<Rightarrow> signal list \<Rightarrow> ('d, 'w) reader" where
  "run callback r sigs = foldl (\<lambda>r' sg. step callback sg r') r sigs"

text \<open>
  A caller that only observes: its callback writes down the arguments it is called
  with, the listeners of the read that are attached to the stream at that moment,
  and the stream. \<open>start\<close> is \<open>readStream\<close> called with it.
\<close>

type_synonym call = "args \<times> (string \<times> handler) list \<times> stream"

definition record_call :: "('d, call list) callback" where
  "record_call a r = r\<lparr>world := world r @ [(a, listeners r, stream r)]\<rparr>"

definition start ::
  "(string \<Rightarrow> 'd lookup) \<Rightarrow> stream \<Rightarrow> string option \<Rightarrow> number option \<Rightarrow> number option \<Rightarrow>
   ('d, call list) reader" where
  "start iconv stream0 encoding length0 limit0 =
     readStream iconv record_call stream0 encoding length0 limit0 []"

text \<open>The outcomes delivered so far.\<close>

definition outcomes :: "('d, call list) reader \<Rightarrow> args list" where
  "outcomes r = map fst (world r)"

text \<open>
  Examples for the theorems below: a readable stream as Node makes it, and a decoder
  library that knows \<open>latin1\<close>, each byte being one character, and an encoding
  \<open>pairs\<close> that turns two bytes into one character (the second one), keeps an odd
  byte for the next chunk and gives a question mark for it at the end.
\<close>

definition node_stream :: stream where
  "node_stream = \<lparr>stream_decoder = False,
     readableState = Some \<lparr>rs_encoding = False, rs_decoder = False\<rparr>,
     has_unpipe = True, has_pause = True, unpiped = False, paused = False\<rparr>"

fun pairs :: "byte list \<Rightarrow> string \<times> byte list" where
  "pairs (a # b # rest) = (let (out, st) = pairs rest in (char_of (unat b) # out, st))"
| "pairs rest = ([], rest)"

definition pairs_write :: "byte list \<Rightarrow> byte list \<Rightarrow> string \<times> byte list" where
  "pairs_write st chunk = pairs (st @ chunk)"

definition latin1_decoder :: "byte list decoder" where
  "latin1_decoder =
     \<lparr>dec_state = [], dec_write = (\<lambda>st chunk. (map (\<lambda>b. char_of (unat b)) chunk, [])),
      dec_end = (\<lambda>st. None)\<rparr>"

definition pairs_decoder :: "byte list decoder" where
  "pairs_decoder =
     \<lparr>dec_state = [], dec_write = pairs_write,
      dec_end = (\<lambda>st. if st = [] then None else Some ''?'')\<rparr>"

definition example_iconv :: "string \<Rightarrow> byte list lookup" where
  "example_iconv enc =
     (if enc = ''latin1'' then Found latin1_decoder
      else if enc = ''pairs'' then Found pairs_decoder
      else Throws (''Encoding not recognized: '' @ enc))"

section \<open>The entry point of raw-body\<close>

text \<open>\<open>isNaN(s)\<close> on a string: the string is converted to a number, which is \<open>NaN\<close>
  unless, with white space trimmed on both sides, it is empty, a signed decimal
  literal (digits with an optional fraction and exponent, or \<open>Infinity\<close>), or an
  unsigned hexadecimal, binary or octal literal.\<close>

definition is_exponent :: "string \<Rightarrow> bool" where
  "is_exponent e =
     (case e of [] \<Rightarrow> True
      | c # r \<Rightarrow> (c = CHR ''e'' \<or> c = CHR ''E'') \<and>
          (let d = (case r of [] \<Rightarrow> []
                    | sg # r' \<Rightarrow> if sg = CHR ''+'' \<or> sg = CHR ''-'' then r' else r)
           in d \<noteq> [] \<and> list_all is_digit d))"

definition is_unsigned_decimal :: "string \<Rightarrow> bool" where
  "is_unsigned_decimal u =
     (u = ''Infinity'' \<or>
      (let ip = takeWhile is_digit u; r = dropWhile is_digit u
       in case r of [] \<Rightarrow> ip \<noteq> []
          | c # r' \<Rightarrow>
              if c = CHR ''.''
              then (let fp = takeWhile is_digit r'; e = dropWhile is_digit r'
                    in (ip \<noteq> [] \<or> fp \<noteq> []) \<and> is_exponent e)
              else ip \<noteq> [] \<and> is_exponent r))"

definition is_nondecimal :: "string \<Rightarrow> bool" where
  "is_nondecimal t =
     (case t of
        z # x # ds \<Rightarrow> z = CHR ''0'' \<and> ds \<noteq> [] \<and>
          ((x \<in> set ''xX'' \<and> list_all (\<lambda>c. c \<in> set ''0123456789abcdefABCDEF'') ds) \<or>
           (x \<in> set ''bB'' \<and> list_all (\<lambda>c. c \<in> set ''01'') ds) \<or>
           (x \<in> set ''oO'' \<and> list_all (\<lambda>c. c \<in> set ''01234567'') ds))
      | _ \<Rightarrow> False)"

definition isNaN_string :: "string \<Rightarrow> bool" where
  "isNaN_string s =
     (let t = rev (dropWhile is_space (rev (dropWhile is_space s)))
      in \<not> (t = [] \<or> is_nondecimal t \<or> is_unsigned_decimal (snd (split_sign t))))"

text \<open>
  \<^verbatim>\<open>
  export function getRawBody(stream: Readable, options: IOptions, callback) {
    ...
    const encoding = opts.encoding !== true ? opts.encoding : "utf-8";
    const limit = bytes.parse(opts.limit);
    const length = opts.length != null && !isNaN(opts.length) ? parseInt(opts.length, 10) : null;
    if (done) { return readStream(stream, encoding, length, limit, done); }
    ...
  }
  \<close>
  This is the call with an options object and a callback, the one the orchestrator
  makes; the shortcuts for the arguments and the promise are not modelled. The
  expected length is absent or a string (a header), the encoding is \<open>true\<close>, absent
  or a string.
\<close>

datatype encoding_option = EncTrue | Enc "string option"

record raw_options =
  opt_length :: "string option"
  opt_limit :: jsval
  opt_encoding :: encoding_option

definition getRawBody ::
  "(string \<Rightarrow> 'd lookup) \<Rightarrow> ('d, 'w) callback \<Rightarrow> stream \<Rightarrow> raw_options \<Rightarrow> 'w \<Rightarrow> ('d, 'w) reader" where
  "getRawBody iconv callback stream0 opts w =
     (let encoding = (case opt_encoding opts of EncTrue \<Rightarrow> Some ''utf-8'' | Enc e \<Rightarrow> e);
          limit0 = (case parse (opt_limit opts) of JNum n \<Rightarrow> Some n | _ \<Rightarrow> None);
          length0 = (case opt_length opts of
                       None \<Rightarrow> None
                     | Some s \<Rightarrow> if \<not> isNaN_string s then Some (parseInt s) else None)
      in readStream iconv callback stream0 encoding length0 limit0 w)"

section \<open>The request body orchestrator (read)\<close>

text \<open>
  A request: its headers and its readable side. The content stream is the request
  itself or a fresh \<open>zlib\<close> transform that the request is piped into; \<open>cs_length\<close> is
  the property \<open>length\<close> that \<open>contentstream\<close> sets on it (\<open>None\<close> is \<open>undefined\<close>).
\<close>

record request =
  headers :: "string \<Rightarrow> string option"
  req_stream :: stream

datatype transform = Identity | Inflate | Gunzip

record content_stream =
  cs_kind :: transform
  cs_piped :: bool
  cs_length :: "string option"
  cs_stream :: stream

text \<open>A transform stream as \<open>zlib.createInflate()\<close> and \<open>zlib.createGunzip()\<close> make it.\<close>

definition zlib_stream :: stream where
  "zlib_stream = \<lparr>stream_decoder = False,
     readableState = Some \<lparr>rs_encoding = False, rs_decoder = False\<rparr>,
     has_unpipe = True, has_pause = True, unpiped = False, paused = False\<rparr>"

text \<open>
  \<^verbatim>\<open>
  function contentstream(req, debug, inflate: boolean = true) {
    const encoding = (req.headers["content-encoding"] || "identity").toLowerCase();
    const length = req.headers["content-length"];
    if (inflate === false && encoding !== "identity") {
      throw createError(415, "content encoding unsupported",
        { encoding: encoding, type: "encoding.unsupported" });
    }
    switch (encoding) {
      case "deflate": stream = zlib.createInflate(); req.pipe(stream); break;
      case "gzip": stream = zlib.createGunzip(); req.pipe(stream); break;
      case "identity": stream = req; stream.length = length; break;
      default:
        throw createError(415, 'unsupported content encoding "' + encoding + '"',
          { encoding: encoding, type: "encoding.unsupported" });
    }
    return stream;
  }
  \<close>
  An absent \<open>inflate\<close> takes the default \<open>true\<close>; an absent or empty header is falsy.
\<close>

definition contentstream :: "request \<Rightarrow> bool option \<Rightarrow> error + content_stream" where
  "contentstream req inflate =
     (let encoding = toLowerCase (case headers req ''content-encoding'' of
                                    None \<Rightarrow> ''identity''
                                  | Some h \<Rightarrow> if h = [] then ''identity'' else h);
          length0 = headers req ''content-length''
      in if inflate = Some False \<and> encoding \<noteq> ''identity''
         then Inl (HttpError 415 ''content encoding unsupported''
                     [(''encoding'', JStr encoding), (''type'', JStr ''encoding.unsupported'')])
         else if encoding = ''deflate''
         then Inr \<lparr>cs_kind = Inflate, cs_piped = True, cs_length = None, cs_stream = zlib_stream\<rparr>
         else if encoding = ''gzip''
         then Inr \<lparr>cs_kind = Gunzip, cs_piped = True, cs_length = None, cs_stream = zlib_stream\<rparr>
         else if encoding = ''identity''
         then Inr \<lparr>cs_kind = Identity, cs_piped = False, cs_length = length0,
                   cs_stream = req_stream req\<rparr>
         else Inl (HttpError 415 (''unsupported content encoding \"'' @ encoding @ ''\"'')
                     [(''encoding'', JStr encoding), (''type'', JStr ''encoding.unsupported'')]))"

text \<open>
  What the orchestrator changes outside the accumulator: \<open>req._body\<close>, \<open>req.body\<close>,
  the calls of \<open>next\<close> (\<open>None\<close> is the call without an error), and the listeners
  registered with \<open>onFinished(req, ...)\<close>. \<open>onFinished\<close> of \<open>lib/utils\<close> is not among the
  sources; it belongs to the surroundings here. A call of it registers the listener,
  which is the closure \<open>next(createError(400, _error))\<close> and is kept as the error it
  will hand over. The signal \<open>ReqFinished\<close> is the moment at which \<open>onFinished\<close> calls
  what was registered: by its name and its use ("read off entire request"), when
  the request has finished.
\<close>

record 'v world =
  req_body_parsed :: bool
  req_body :: "'v option"
  nexts :: "error option list"
  on_finished :: "error list"

definition "next" :: "error option \<Rightarrow> 'v world \<Rightarrow> 'v world" where
  "next err w = w\<lparr>nexts := nexts w @ [err]\<rparr>"

definition onFinished :: "error \<Rightarrow> 'v world \<Rightarrow> 'v world" where
  "onFinished err w = w\<lparr>on_finished := on_finished w @ [err]\<rparr>"


text \<open>
  The decoder library again: \<open>iconv.encodingExists\<close> says whether the lookup finds
  the encoding, and \<open>iconv.decode(buf, encoding)\<close> is one \<open>write\<close> followed by \<open>end\<close> on
  the decoder found, or the throw of the lookup.
\<close>

definition encodingExists :: "(string \<Rightarrow> 'd lookup) \<Rightarrow> string \<Rightarrow> bool" where
  "encodingExists iconv enc = (case iconv enc of Found d \<Rightarrow> True | Throws msg \<Rightarrow> False)"

definition decode :: "(string \<Rightarrow> 'd lookup) \<Rightarrow> byte list \<Rightarrow> string \<Rightarrow> error + string" where
  "decode iconv buf enc =
     (case iconv enc of
        Throws msg \<Rightarrow> Inl (PlainError msg)
      | Found d \<Rightarrow>
          (let (res, st) = dec_write d (dec_state d) buf
           in case dec_end d st of None \<Rightarrow> Inr res | Some trail \<Rightarrow> Inr (res @ trail)))"

fun truthy :: "jsval \<Rightarrow> bool" where
  "truthy JUndefined = False"
| "truthy JNull = False"
| "truthy (JBool b) = b"
| "truthy (JNum n) = (n \<noteq> NaN \<and> n \<noteq> Fin 0)"
| "truthy (JStr s) = (s \<noteq> [])"
| "truthy (JBuffer b) = True"

fun payload_val :: "payload \<Rightarrow> jsval" where
  "payload_val (Text t) = JStr t"
| "payload_val (Bytes b) = JBuffer b"

text \<open>The error both places of \<open>read\<close> make for a charset that is not supported.\<close>

definition charset_unsupported :: "string \<Rightarrow> error" where
  "charset_unsupported encoding =
     HttpError 415 (''unsupported charset \"'' @ toUpperCase encoding @ ''\"'')
       [(''charset'', JStr (toLowerCase encoding)), (''type'', JStr ''charset.unsupported'')]"

text \<open>
  The options of \<open>read\<close>: the charset (\<open>None\<close> is \<open>null\<close>), \<open>inflate\<close>, \<open>limit\<close>, and the
  verification function if there is one. \<open>verify\<close> is given the body and the charset
  and throws or returns; \<open>parse\<close> returns a value or throws.

  The callback that \<open>read\<close> hands to \<open>getBody\<close>:
  \<^verbatim>\<open>
  function(error: Error, body) {
    if (error) {
      let _error: Error;
      if (error.type === "encoding.unsupported") {
        _error = createError(415, 'unsupported charset "' + encoding.toUpperCase() + '"',
          { charset: encoding.toLowerCase(), type: "charset.unsupported" });
      } else { _error = createError(400, error); }
      stream.resume();
      onFinished(req, function onfinished() { next(createError(400, _error)); });
      return;
    }
    if (verify) {
      try { verify(req, res, body, encoding); }
      catch (err) {
        next(createError(403, err, { body: body, type: err.type || "entity.verify.failed" }));
        return;
      }
    }
    let str = body;
    try {
      str = typeof body !== "string" && encoding !== null ? iconv.decode(body, encoding) : body;
      req.body = parse(str);
    } catch (err) {
      next(createError(400, err, { body: str, type: err.type || "entity.parse.failed" }));
      return;
    }
    next();
  }
  \<close>
  \<open>encoding.toUpperCase()\<close> on \<open>null\<close> throws a \<open>TypeError\<close>; so does the callback
  without error and without body in this model, a call that \<open>readStream\<close> never makes.
\<close>

record read_options =
  o_encoding :: "string option"
  o_inflate :: "bool option"
  o_limit :: jsval
  o_verify :: "(payload \<Rightarrow> string option \<Rightarrow> error option) option"

definition parse_failed :: "error \<Rightarrow> payload \<Rightarrow> error" where
  "parse_failed err str =
     WrapError 400 err
       [(''body'', payload_val str),
        (''type'', if truthy (error_type err) then error_type err else JStr ''entity.parse.failed'')]"

definition on_body ::
  "(string \<Rightarrow> 'd lookup) \<Rightarrow> string option \<Rightarrow> (payload \<Rightarrow> string option \<Rightarrow> error option) option \<Rightarrow>
   (payload \<Rightarrow> error + 'v) \<Rightarrow> ('d, 'v world) callback" where
  "on_body iconv encoding verify parse_body a r =
     (case a of
        (Some err, body) \<Rightarrow>
          (case (if error_type err = JStr ''encoding.unsupported''
                 then map_option charset_unsupported encoding
                 else Some (WrapError 400 err [])) of
             None \<Rightarrow> r\<lparr>uncaught := uncaught r @ [''TypeError'']\<rparr>
           | Some error' \<Rightarrow>
               r\<lparr>stream := resume (stream r),
                  world := onFinished (WrapError 400 error' []) (world r)\<rparr>)
      | (None, None) \<Rightarrow> r\<lparr>uncaught := uncaught r @ [''TypeError'']\<rparr>
      | (None, Some body) \<Rightarrow>
          (case (case verify of None \<Rightarrow> None | Some v \<Rightarrow> v body encoding) of
             Some err \<Rightarrow>
               r\<lparr>world := next (Some (WrapError 403 err
                   [(''body'', payload_val body),
                    (''type'', if truthy (error_type err) then error_type err
                               else JStr ''entity.verify.failed'')])) (world r)\<rparr>
           | None \<Rightarrow>
               (case (case (body, encoding) of
                        (Bytes b, Some enc) \<Rightarrow> map_sum id Text (decode iconv b enc)
                      | _ \<Rightarrow> Inr body) of
                  Inl err \<Rightarrow> r\<lparr>world := next (Some (parse_failed err body)) (world r)\<rparr>
                | Inr str \<Rightarrow>
                    (case parse_body str of
                       Inl err \<Rightarrow> r\<lparr>world := next (Some (parse_failed err str)) (world r)\<rparr>
                     | Inr v \<Rightarrow> r\<lparr>world := next None ((world r)\<lparr>req_body := Some v\<rparr>)\<rparr>))))"

text \<open>
  \<^verbatim>\<open>
  export function read(req, res, next, parse, debug, options) {
    const opts = options;
    req._body = true;
    const encoding = opts.encoding !== null ? opts.encoding : null;
    const verify = opts.verify;
    try {
      stream = contentstream(req, debug, opts.inflate);
      length = stream.length;
      stream.length = undefined;
    } catch (err) { return next(err); }
    opts.length = length;
    opts.encoding = verify ? null : encoding;
    if (opts.encoding === null && encoding !== null && !iconv.encodingExists(encoding)) {
      return next(createError(415, 'unsupported charset "' + encoding.toUpperCase() + '"',
        { charset: encoding.toLowerCase(), type: "charset.unsupported" }));
    }
    getBody(stream, opts, function(error: Error, body) { ... });
  }
  \<close>
  \<open>getBody\<close> is the package \<open>raw-body\<close>, of which the accumulator above is the copy
  kept in the repository. The value says whether \<open>read\<close> returned without starting
  an accumulator, and gives the state it left.
\<close>

datatype ('d, 'v) reading = Returned "'v world" | Reading "('d, 'v world) reader"

definition read ::
  "(string \<Rightarrow> 'd lookup) \<Rightarrow> request \<Rightarrow> (payload \<Rightarrow> error + 'v) \<Rightarrow> read_options \<Rightarrow>
   'v world \<Rightarrow> ('d, 'v) reading" where
  "read iconv req parse_body opts w =
     (let w1 = w\<lparr>req_body_parsed := True\<rparr>;
          encoding = o_encoding opts;
          verify = o_verify opts
      in case contentstream req (o_inflate opts) of
           Inl err \<Rightarrow> Returned (next (Some err) w1)
         | Inr cs \<Rightarrow>
             (let length0 = cs_length cs;
                  opts_encoding = (if verify \<noteq> None then None else encoding)
              in case (if opts_encoding = None then encoding else None) of
                   Some enc \<Rightarrow>
                     if \<not> encodingExists iconv enc
                     then Returned (next (Some (charset_unsupported enc)) w1)
                     else Reading (getRawBody iconv (on_body iconv encoding verify parse_body)
                            (cs_stream cs)
                            \<lparr>opt_length = length0, opt_limit = o_limit opts,
                             opt_encoding = Enc opts_encoding\<rparr> w1)
                 | None \<Rightarrow>
                     Reading (getRawBody iconv (on_body iconv encoding verify parse_body)
                       (cs_stream cs)
                       \<lparr>opt_length = length0, opt_limit = o_limit opts,
                        opt_encoding = Enc opts_encoding\<rparr> w1)))"





text \<open>Examples: a request with the given headers, a deserialiser that takes any text
  and no bytes, and an empty world.\<close>

definition example_request :: "(string \<times> string) list \<Rightarrow> request" where
  "example_request hs = \<lparr>headers = map_of hs, req_stream = node_stream\<rparr>"

definition example_parse :: "payload \<Rightarrow> error + string" where
  "example_parse p = (case p of Text t \<Rightarrow> Inr t | Bytes b \<Rightarrow> Inl (PlainError ''not text''))"

definition world0 :: "string world" where
  "world0 = \<lparr>req_body_parsed = False, req_body = None, nexts = [], on_finished = []\<rparr>"

section \<open>Words of the specification\<close>





text \<open>
  The accumulator in the words of the specification. Its states: \<open>reading\<close> (all five
  listeners attached, nothing decided), \<open>scheduled\<close> (a failure found during setup
  waits for the next tick), \<open>delivered\<close> (the callback has been called once, with an
  error or with a payload and not both, and had no listener left to see), and
  \<open>closed\<close> (the stream closed before anything was decided). The specification
  names the first and the third, as Reading and as Succeeded or Failed.
\<close>

definition all_listeners :: "(string \<times> handler) list" where
  "all_listeners = [(''aborted'', OnAborted), (''close'', Cleanup), (''data'', OnData),
                    (''end'', OnEnd), (''error'', OnEnd)]"

definition reading :: "('d, call list) reader \<Rightarrow> bool" where
  "reading r \<longleftrightarrow>
     listeners r = all_listeners \<and> \<not> complete r \<and> \<not> sync r \<and> pending r = [] \<and>
     world r = [] \<and> uncaught r = [] \<and>
     (case (decoder r, buffer r) of
        (None, BArray cs) \<Rightarrow> True | (Some d, BString b) \<Rightarrow> True | _ \<Rightarrow> False)"

definition scheduled :: "('d, call list) reader \<Rightarrow> bool" where
  "scheduled r \<longleftrightarrow>
     listeners r = [] \<and> complete r \<and> sync r \<and> world r = [] \<and> uncaught r = [] \<and>
     (case pending r of [(Some e, None)] \<Rightarrow> True | _ \<Rightarrow> False)"

definition delivered :: "('d, call list) reader \<Rightarrow> bool" where
  "delivered r \<longleftrightarrow>
     listeners r = [] \<and> complete r \<and> pending r = [] \<and> uncaught r = [] \<and>
     (case world r of
        [((Some e, None), ls, s)] \<Rightarrow> ls = []
      | [((None, Some p), ls, s)] \<Rightarrow> ls = []
      | _ \<Rightarrow> False)"

definition closed :: "('d, call list) reader \<Rightarrow> bool" where
  "closed r \<longleftrightarrow>
     listeners r = [] \<and> \<not> complete r \<and> \<not> sync r \<and> pending r = [] \<and> world r = [] \<and>
     uncaught r = []"

text \<open>The chunks among a list of signals, and the text a decoder makes of a list of
  chunks fed in order, with what \<open>end()\<close> adds.\<close>

fun chunks_of :: "signal list \<Rightarrow> byte list list" where
  "chunks_of [] = []"
| "chunks_of (Emit (Data chunk) # sigs) = chunk # chunks_of sigs"
| "chunks_of (sg # sigs) = chunks_of sigs"

fun feed :: "'d decoder \<Rightarrow> byte list list \<Rightarrow> 'd decoder" where
  "feed d [] = d"
| "feed d (chunk # chunks) = feed (d\<lparr>dec_state := snd (dec_write d (dec_state d) chunk)\<rparr>) chunks"

fun fed_text :: "'d decoder \<Rightarrow> byte list list \<Rightarrow> string" where
  "fed_text d [] = []"
| "fed_text d (chunk # chunks) =
     fst (dec_write d (dec_state d) chunk) @
     fed_text (d\<lparr>dec_state := snd (dec_write d (dec_state d) chunk)\<rparr>) chunks"

definition decoded_text :: "'d decoder \<Rightarrow> byte list list \<Rightarrow> string" where
  "decoded_text d chunks =
     fed_text d chunks @
     (case dec_end (feed d chunks) (dec_state (feed d chunks)) of None \<Rightarrow> [] | Some t \<Rightarrow> t)"

text \<open>The payload of a success: "decoded text, or concatenated raw bytes if no charset
  was requested".\<close>

definition success_payload :: "'d decoder option \<Rightarrow> byte list list \<Rightarrow> payload" where
  "success_payload dec chunks =
     (case dec of Some d \<Rightarrow> Text (decoded_text d chunks) | None \<Rightarrow> Bytes (concat chunks))"

definition inv :: "('d, call list) reader \<Rightarrow> bool" where
  "inv r \<longleftrightarrow> reading r \<or> scheduled r \<or> delivered r \<or> closed r"

text \<open>The errors of the accumulator by the names of the specification.\<close>

definition EntityTooLarge_expected :: "number \<Rightarrow> number \<Rightarrow> error" where
  "EntityTooLarge_expected expected lm =
     createHttpError 413 ''request entity too large''
       [(''expected'', JNum expected), (''length'', JNum expected), (''limit'', JNum lm),
        (''type'', JStr ''entity.too.large'')]"

definition EntityTooLarge_received :: "number \<Rightarrow> nat \<Rightarrow> error" where
  "EntityTooLarge_received lm n =
     createHttpError 413 ''request entity too large''
       [(''limit'', JNum lm), (''received'', JNum (Fin (of_nat n))),
        (''type'', JStr ''entity.too.large'')]"

definition SizeMismatch :: "number \<Rightarrow> nat \<Rightarrow> error" where
  "SizeMismatch expected n =
     createHttpError 400 ''request size did not match content length''
       [(''expected'', JNum expected), (''length'', JNum expected),
        (''received'', JNum (Fin (of_nat n))), (''type'', JStr ''request.size.invalid'')]"

definition RequestAborted :: "number option \<Rightarrow> nat \<Rightarrow> error" where
  "RequestAborted expected n =
     createHttpError 400 ''request aborted''
       [(''code'', JStr ''ECONNABORTED''), (''expected'', num_or_null expected),
        (''length'', num_or_null expected), (''received'', JNum (Fin (of_nat n))),
        (''type'', JStr ''request.aborted'')]"

definition EncodingUnsupported :: "string \<Rightarrow> error" where
  "EncodingUnsupported enc =
     createHttpError 415 ''specified encoding unsupported''
       [(''encoding'', JStr enc), (''type'', JStr ''encoding.unsupported'')]"

text \<open>The two tests of the handlers: a chunk takes the count over the limit; the
  count differs from the expected length.\<close>

definition over_limit :: "('d, 'w) reader \<Rightarrow> byte list \<Rightarrow> bool" where
  "over_limit r chunk =
     (case limit r of None \<Rightarrow> False
      | Some lm \<Rightarrow> js_gt (Fin (of_nat (received r + length chunk))) lm)"

definition size_mismatch :: "('d, 'w) reader \<Rightarrow> bool" where
  "size_mismatch r =
     (case length' r of None \<Rightarrow> False | Some len \<Rightarrow> js_neq (Fin (of_nat (received r))) len)"

text \<open>What \<open>done\<close> leaves when it is called after setup with all listeners attached:
  the read is complete, the listeners are gone, the stream is halted if there is an
  error, and the callback has been called.\<close>

definition finish :: "args \<Rightarrow> ('d, call list) reader \<Rightarrow> ('d, call list) reader" where
  "finish a r =
     r\<lparr>complete := True, buffer := BNull, listeners := [],
        stream := (if fst a \<noteq> None then halt (stream r) else stream r),
        world := world r @ [(a, [], if fst a \<noteq> None then halt (stream r) else stream r)]\<rparr>"

text \<open>The two checks that come before the decoder in \<open>readStream\<close>: the declared
  length is over the limit; the stream has an encoding set.\<close>

definition declared_too_large :: "number option \<Rightarrow> number option \<Rightarrow> bool" where
  "declared_too_large len lm = (case (lm, len) of (Some l, Some n) \<Rightarrow> js_gt n l | _ \<Rightarrow> False)"

definition encoding_set :: "stream \<Rightarrow> bool" where
  "encoding_set st \<longleftrightarrow>
     stream_decoder st \<or>
     (case readableState st of None \<Rightarrow> False | Some s \<Rightarrow> rs_encoding s \<or> rs_decoder s)"

text \<open>
  The orchestrator in the words of the specification: the encoding token, "defaults
  to identity when absent", in lower case; the expected length and the limit as the
  entry point of raw-body hands them to the accumulator; and the error that the
  callback of \<open>read\<close> makes of a failure of the accumulator before it wraps it for
  \<open>next\<close>.
\<close>

definition encoding_token :: "request \<Rightarrow> string" where
  "encoding_token req =
     toLowerCase (case headers req ''content-encoding'' of
                    None \<Rightarrow> ''identity'' | Some h \<Rightarrow> if h = [] then ''identity'' else h)"

definition expected_length_of :: "string option \<Rightarrow> number option" where
  "expected_length_of h =
     (case h of None \<Rightarrow> None | Some s \<Rightarrow> if \<not> isNaN_string s then Some (parseInt s) else None)"

definition limit_of :: "jsval \<Rightarrow> number option" where
  "limit_of v = (case parse v of JNum n \<Rightarrow> Some n | _ \<Rightarrow> None)"


section \<open>The size unit parser: proofs\<close>























text \<open>The examples of the specification that hold.\<close>

lemma parse_examples:
  "parse (JStr ''1mb'') = JNum (Fin (of_int (push_bit 20 1)))"
  "parse (JStr ''2kb'') = JNum (Fin 2048)"
  "parse (JStr ''10abc'') = JNum (Fin 10)"
  by code_simp+

section \<open>The accumulator: proofs\<close>

lemma cleanup_all:
  "listeners r = all_listeners \<Longrightarrow> cleanup r = r\<lparr>buffer := BNull, listeners := []\<rparr>"
  by (simp add: cleanup_def removeListener_def all_listeners_def)

lemma cleanup_none:
  "listeners r = [] \<Longrightarrow> cleanup r = r\<lparr>buffer := BNull\<rparr>"
  by (simp add: cleanup_def removeListener_def)

lemma emit_none: "listeners r = [] \<Longrightarrow> emit callback ev r = r"
  by (simp add: emit_def)

lemma emit_all:
  "listeners r = all_listeners \<Longrightarrow>
   emit callback ev r =
     (case ev of Aborted \<Rightarrow> onAborted callback r | Close \<Rightarrow> cleanup r
      | Data c \<Rightarrow> onData callback c r | End \<Rightarrow> onEnd callback None r
      | Error e \<Rightarrow> onEnd callback (Some e) r)"
  by (cases ev) (simp_all add: emit_def all_listeners_def)

lemma done_async:
  assumes "listeners r = all_listeners" "\<not> sync r"
  shows "done' record_call a r = finish a r"
  using assms by (simp add: done'_def invokeCallback_def cleanup_all record_call_def Let_def finish_def)

lemma tick_none: "pending r = [] \<Longrightarrow> tick callback r = r"
  by (simp add: tick_def)

lemma invoke_none:
  assumes "listeners r = []"
  shows "invokeCallback record_call a r =
     r\<lparr>buffer := BNull,
        stream := (if fst a \<noteq> None then halt (stream r) else stream r),
        world := world r @ [(a, [], if fst a \<noteq> None then halt (stream r) else stream r)]\<rparr>"
  using assms by (simp add: invokeCallback_def cleanup_none record_call_def Let_def)


lemma reading_cases:
  assumes "reading r"
  obtains cs where "decoder r = None" "buffer r = BArray cs"
  | d b where "decoder r = Some d" "buffer r = BString b"
  using assms by (auto simp: reading_def split: option.splits buffer.splits)

lemma reading_facts:
  assumes "reading r"
  shows "listeners r = all_listeners" "\<not> complete r" "\<not> sync r" "pending r = []"
    "world r = []" "uncaught r = []"
  using assms by (simp_all add: reading_def)

lemma onData_over:
  assumes "reading r" "over_limit r c"
  shows "emit record_call (Data c) r =
     finish (Some (createHttpError 413 ''request entity too large''
                    [(''limit'', num_or_null (limit r)),
                     (''received'', JNum (Fin (of_nat (received r + length c)))),
                     (''type'', JStr ''entity.too.large'')]), None)
       (r\<lparr>received := received r + length c\<rparr>)"
proof -
  note f = reading_facts [OF assms(1)]
  have "onData record_call c r = done' record_call
      (Some (createHttpError 413 ''request entity too large''
                    [(''limit'', num_or_null (limit r)),
                     (''received'', JNum (Fin (of_nat (received r + length c)))),
                     (''type'', JStr ''entity.too.large'')]), None)
       (r\<lparr>received := received r + length c\<rparr>)"
    using assms(2) f(2) by (simp add: onData_def over_limit_def Let_def split: option.splits)
  then show ?thesis
    using f by (simp add: emit_all done_async)
qed

lemma onData_raw:
  assumes "reading r" "\<not> over_limit r c" "decoder r = None" "buffer r = BArray cs"
  shows "emit record_call (Data c) r =
     r\<lparr>received := received r + length c, buffer := BArray (cs @ [c])\<rparr>"
  using assms reading_facts [OF assms(1)]
  by (simp add: emit_all onData_def over_limit_def Let_def split: option.splits)

lemma onData_text:
  assumes "reading r" "\<not> over_limit r c" "decoder r = Some d" "buffer r = BString b"
  shows "emit record_call (Data c) r =
     r\<lparr>received := received r + length c,
        decoder := Some (d\<lparr>dec_state := snd (dec_write d (dec_state d) c)\<rparr>),
        buffer := BString (b @ fst (dec_write d (dec_state d) c))\<rparr>"
  using assms reading_facts [OF assms(1)]
  by (simp add: emit_all onData_def over_limit_def Let_def split: prod.splits option.splits)

lemma onEnd_mismatch:
  assumes "reading r" "size_mismatch r"
  shows "emit record_call End r =
     finish (Some (createHttpError 400 ''request size did not match content length''
                    [(''expected'', num_or_null (length' r)),
                     (''length'', num_or_null (length' r)),
                     (''received'', JNum (Fin (of_nat (received r)))),
                     (''type'', JStr ''request.size.invalid'')]), None) r"
  using assms reading_facts [OF assms(1)]
  by (simp add: emit_all onEnd_def size_mismatch_def done_async split: option.splits)

lemma onEnd_raw:
  assumes "reading r" "\<not> size_mismatch r" "decoder r = None" "buffer r = BArray cs"
  shows "emit record_call End r = finish (None, Some (Bytes (concat cs))) r"
  using assms reading_facts [OF assms(1)]
  by (simp add: emit_all onEnd_def size_mismatch_def done_async split: option.splits)

lemma onEnd_text:
  assumes "reading r" "\<not> size_mismatch r" "decoder r = Some d" "buffer r = BString b"
  shows "emit record_call End r =
     finish (None, Some (Text (b @ (case dec_end d (dec_state d) of None \<Rightarrow> [] | Some t \<Rightarrow> t)))) r"
  using assms reading_facts [OF assms(1)]
  by (simp add: emit_all onEnd_def size_mismatch_def done_async Let_def split: option.splits)

lemma onError_reading:
  assumes "reading r"
  shows "emit record_call (Error e) r = finish (Some e, None) r"
  using reading_facts [OF assms]
  by (simp add: emit_all onEnd_def done_async)

lemma onAborted_reading:
  assumes "reading r"
  shows "emit record_call Aborted r =
     finish (Some (RequestAborted (length' r) (received r)), None) r"
  using reading_facts [OF assms]
  by (simp add: emit_all onAborted_def done_async RequestAborted_def)

lemma onClose_reading:
  assumes "reading r"
  shows "emit record_call Close r = r\<lparr>buffer := BNull, listeners := []\<rparr>"
  using reading_facts [OF assms]
  by (simp add: emit_all cleanup_all)

lemma finish_delivered:
  assumes "reading r" "(fst a = None) \<noteq> (snd a = None)"
  shows "delivered (finish a r)"
  using assms reading_facts [OF assms(1)]
  by (cases a; cases "fst a"; cases "snd a") (simp_all add: delivered_def finish_def)

lemma reading_received: "reading r \<Longrightarrow> reading (r\<lparr>received := n\<rparr>)"
  by (simp add: reading_def)


lemma done_sync: "sync r \<Longrightarrow> done' callback a r = r\<lparr>complete := True, pending := pending r @ [a]\<rparr>"
  by (simp add: done'_def Let_def)

lemma start_phase: "reading (start iconv st enc len lm) \<or> scheduled (start iconv st enc len lm)"
  by (auto simp: start_def readStream_def done_sync on_def reading_def scheduled_def
      all_listeners_def Let_def split: option.splits sum.splits)

lemma scheduled_pending:
  assumes "scheduled r"
  obtains e where "pending r = [(Some e, None)]"
  using assms by (auto simp: scheduled_def split: list.splits option.splits)

lemma tick_scheduled:
  assumes "scheduled r" "pending r = [(Some e, None)]"
  shows "tick record_call r =
     r\<lparr>pending := [], buffer := BNull, stream := halt (stream r),
        world := [((Some e, None), [], halt (stream r))]\<rparr>"
  using assms by (simp add: scheduled_def tick_def invoke_none)

lemma tick_scheduled_delivered:
  assumes "scheduled r"
  shows "delivered (tick record_call r)"
proof -
  from assms obtain e where "pending r = [(Some e, None)]"
    by (rule scheduled_pending)
  then have "tick record_call r =
     r\<lparr>pending := [], buffer := BNull, stream := halt (stream r),
        world := [((Some e, None), [], halt (stream r))]\<rparr>"
    by (rule tick_scheduled [OF assms])
  then show ?thesis
    using assms by (simp add: scheduled_def delivered_def)
qed

lemma emit_reading:
  assumes "reading r"
  shows "reading (emit record_call ev r) \<or> delivered (emit record_call ev r)
         \<or> closed (emit record_call ev r)"
proof (cases ev)
  case Aborted
  then show ?thesis
    using assms by (simp add: onAborted_reading finish_delivered)
next
  case Close
  then show ?thesis
    using assms by (simp add: onClose_reading) (simp add: reading_def closed_def)
next
  case (Data c)
  show ?thesis
  proof (cases "over_limit r c")
    case True
    then show ?thesis
      using assms Data by (simp add: onData_over finish_delivered reading_received)
  next
    case False
    from assms show ?thesis
    proof (cases rule: reading_cases)
      case (1 cs)
      then have "reading (emit record_call ev r)"
        using assms False Data by (simp add: onData_raw) (simp add: reading_def)
      then show ?thesis by simp
    next
      case (2 d b)
      then have "reading (emit record_call ev r)"
        using assms False Data by (simp add: onData_text) (simp add: reading_def)
      then show ?thesis by simp
    qed
  qed
next
  case End
  show ?thesis
  proof (cases "size_mismatch r")
    case True
    then show ?thesis
      using assms End by (simp add: onEnd_mismatch finish_delivered)
  next
    case False
    from assms show ?thesis
    proof (cases rule: reading_cases)
      case (1 cs)
      then show ?thesis
        using assms False End by (simp add: onEnd_raw finish_delivered)
    next
      case (2 d b)
      then show ?thesis
        using assms False End by (simp add: onEnd_text finish_delivered)
    qed
  qed
next
  case (Error e)
  then show ?thesis
    using assms by (simp add: onError_reading finish_delivered)
qed

lemma step_inv:
  assumes "inv r"
  shows "inv (step record_call sg r)"
proof (cases sg)
  case (Emit ev)
  from assms consider "reading r" | "listeners r = []"
    by (auto simp: inv_def scheduled_def delivered_def closed_def)
  then show ?thesis
  proof cases
    case 1
    then show ?thesis
      using emit_reading [of r ev] Emit by (auto simp: inv_def)
  next
    case 2
    then show ?thesis
      using assms Emit by (simp add: emit_none)
  qed
next
  case Tick
  from assms consider "scheduled r" | "pending r = []"
    by (auto simp: inv_def reading_def delivered_def closed_def)
  then show ?thesis
  proof cases
    case 1
    then show ?thesis
      using tick_scheduled_delivered [of r] Tick by (simp add: inv_def)
  next
    case 2
    then show ?thesis
      using assms Tick by (simp add: tick_none)
  qed
qed




lemma inv_silent:
  assumes "inv r" "listeners r = []"
  shows "listeners (step record_call sg r) = []"
proof (cases sg)
  case (Emit ev)
  then show ?thesis using assms(2) by (simp add: emit_none)
next
  case Tick
  from assms consider "scheduled r" | "pending r = []"
    by (auto simp: inv_def reading_def delivered_def closed_def)
  then show ?thesis
  proof cases
    case 1
    then show ?thesis
      using tick_scheduled_delivered [of r] Tick by (simp add: delivered_def)
  next
    case 2
    then show ?thesis
      using assms(2) Tick by (simp add: tick_none)
  qed
qed

lemma run_silent:
  "inv r \<Longrightarrow> listeners r = [] \<Longrightarrow> listeners (run record_call r sigs) = []"
  unfolding run_def
  by (induction sigs arbitrary: r) (simp_all add: step_inv inv_silent)

lemma run_Cons: "run callback r (sg # sigs) = run callback (step callback sg r) sigs"
  by (simp add: run_def)

lemma run_absorbed:
  "listeners r = [] \<Longrightarrow> pending r = [] \<Longrightarrow> run callback r sigs = r"
proof (induction sigs)
  case Nil
  then show ?case by (simp add: run_def)
next
  case (Cons sg sigs)
  then have "step callback sg r = r"
    by (cases sg) (simp_all add: emit_none tick_none)
  then show ?case
    using Cons by (simp add: run_Cons)
qed

lemma run_events_ignored: "listeners r = [] \<Longrightarrow> run callback r (map Emit evs) = r"
  by (induction evs) (simp_all add: run_def emit_none)

lemma finish_silent: "listeners (finish a r) = []"
  by (simp add: finish_def)

lemma reading_step:
  assumes "reading r" "listeners (step record_call sg r) \<noteq> []"
  shows "reading (step record_call sg r) \<and>
         stream (step record_call sg r) = stream r \<and>
         limit (step record_call sg r) = limit r \<and>
         length' (step record_call sg r) = length' r \<and>
         received (step record_call sg r) = received r + sum_list (map length (chunks_of [sg])) \<and>
         (\<forall>bs. decoder r = None \<and> buffer r = BArray bs \<longrightarrow>
            decoder (step record_call sg r) = None \<and>
            buffer (step record_call sg r) = BArray (bs @ chunks_of [sg])) \<and>
         (\<forall>d b. decoder r = Some d \<and> buffer r = BString b \<longrightarrow>
            decoder (step record_call sg r) = Some (feed d (chunks_of [sg])) \<and>
            buffer (step record_call sg r) = BString (b @ fed_text d (chunks_of [sg])))"
proof (cases sg)
  case Tick
  then show ?thesis
    using assms(1) reading_facts(4) [OF assms(1)] by (simp add: tick_none)
next
  case (Emit ev)
  show ?thesis
  proof (cases ev)
    case Aborted
    then show ?thesis
      using assms Emit by (simp add: onAborted_reading finish_silent)
  next
    case Close
    then show ?thesis
      using assms Emit by (simp add: onClose_reading)
  next
    case End
    have "listeners (emit record_call End r) = []"
      using assms(1)
      by (cases "size_mismatch r"; cases rule: reading_cases [OF assms(1)])
        (simp_all add: onEnd_mismatch onEnd_raw onEnd_text finish_silent)
    then show ?thesis
      using assms Emit End by simp
  next
    case (Error e)
    then show ?thesis
      using assms Emit by (simp add: onError_reading finish_silent)
  next
    case (Data c)
    have no: "\<not> over_limit r c"
      using assms Emit Data by (auto simp: onData_over finish_silent)
    from assms(1) show ?thesis
    proof (cases rule: reading_cases)
      case (1 cs)
      then show ?thesis
        using assms(1) no Emit Data by (simp add: onData_raw) (simp add: reading_def)
    next
      case (2 d b)
      then show ?thesis
        using assms(1) no Emit Data by (simp add: onData_text) (simp add: reading_def)
    qed
  qed
qed

lemma chunks_of_Cons: "chunks_of (sg # sigs) = chunks_of [sg] @ chunks_of sigs"
proof (cases sg)
  case (Emit ev)
  then show ?thesis by (cases ev) simp_all
next
  case Tick
  then show ?thesis by simp
qed

lemma feed_append: "feed d (xs @ ys) = feed (feed d xs) ys"
  by (induction xs arbitrary: d) simp_all

lemma fed_text_append: "fed_text d (xs @ ys) = fed_text d xs @ fed_text (feed d xs) ys"
  by (induction xs arbitrary: d) simp_all

lemma reading_run:
  assumes "reading r" "listeners (run record_call r sigs) \<noteq> []"
  shows "reading (run record_call r sigs) \<and>
         stream (run record_call r sigs) = stream r \<and>
         limit (run record_call r sigs) = limit r \<and>
         length' (run record_call r sigs) = length' r \<and>
         received (run record_call r sigs) = received r + sum_list (map length (chunks_of sigs)) \<and>
         (\<forall>bs. decoder r = None \<and> buffer r = BArray bs \<longrightarrow>
            decoder (run record_call r sigs) = None \<and>
            buffer (run record_call r sigs) = BArray (bs @ chunks_of sigs)) \<and>
         (\<forall>d b. decoder r = Some d \<and> buffer r = BString b \<longrightarrow>
            decoder (run record_call r sigs) = Some (feed d (chunks_of sigs)) \<and>
            buffer (run record_call r sigs) = BString (b @ fed_text d (chunks_of sigs)))"
  using assms
proof (induction sigs arbitrary: r)
  case Nil
  then show ?case by (simp add: run_def)
next
  case (Cons sg sigs)
  define r1 where "r1 = step record_call sg r"
  have "inv r"
    using Cons.prems(1) by (simp add: inv_def)
  then have inv1: "inv r1"
    unfolding r1_def by (rule step_inv)
  have run1: "run record_call r (sg # sigs) = run record_call r1 sigs"
    by (simp add: run_Cons r1_def)
  have l1: "listeners r1 \<noteq> []"
  proof
    assume "listeners r1 = []"
    then have "listeners (run record_call r1 sigs) = []"
      by (rule run_silent [OF inv1])
    then show False
      using Cons.prems(2) by (simp add: run1)
  qed
  note s = reading_step [OF Cons.prems(1) l1 [unfolded r1_def], folded r1_def]
  have rd1: "reading r1"
    using s by simp
  have l2: "listeners (run record_call r1 sigs) \<noteq> []"
    using Cons.prems(2) by (simp add: run1)
  note ih = Cons.IH [OF rd1 l2]
  have ch: "chunks_of (sg # sigs) = chunks_of [sg] @ chunks_of sigs"
    by (rule chunks_of_Cons)
  from Cons.prems(1) show ?case
  proof (cases rule: reading_cases)
    case (1 cs)
    then have "decoder r1 = None" "buffer r1 = BArray (cs @ chunks_of [sg])"
      using s by simp_all
    then show ?thesis
      unfolding run1 ch using ih s 1 by simp
  next
    case (2 d b)
    then have "decoder r1 = Some (feed d (chunks_of [sg]))"
      "buffer r1 = BString (b @ fed_text d (chunks_of [sg]))"
      using s by simp_all
    then show ?thesis
      unfolding run1 ch using ih s 2 by (simp add: feed_append fed_text_append)
  qed
qed

lemma start_reading:
  assumes "listeners (start iconv st enc len lm) \<noteq> []"
  shows "\<exists>dec. getDecoder iconv enc = Inr dec \<and>
     start iconv st enc len lm =
       \<lparr>stream = st, listeners = all_listeners, length' = len, limit = lm, complete = False,
        sync = False, received = 0, decoder = dec,
        buffer = (if dec \<noteq> None then BString [] else BArray []), pending = [],
        uncaught = [], world = []\<rparr>"
  using assms
  by (auto simp: start_def readStream_def done_sync on_def all_listeners_def Let_def
      split: option.splits sum.splits if_splits)

lemma run_reading:
  assumes "listeners (run record_call (start iconv st enc len lm) sigs) \<noteq> []"
  obtains dec where "getDecoder iconv enc = Inr dec"
    and "reading (run record_call (start iconv st enc len lm) sigs)"
    and "stream (run record_call (start iconv st enc len lm) sigs) = st"
    and "limit (run record_call (start iconv st enc len lm) sigs) = lm"
    and "length' (run record_call (start iconv st enc len lm) sigs) = len"
    and "received (run record_call (start iconv st enc len lm) sigs) =
           sum_list (map length (chunks_of sigs))"
    and "decoder (run record_call (start iconv st enc len lm) sigs) =
           map_option (\<lambda>d. feed d (chunks_of sigs)) dec"
    and "buffer (run record_call (start iconv st enc len lm) sigs) =
           (case dec of None \<Rightarrow> BArray (chunks_of sigs)
            | Some d \<Rightarrow> BString (fed_text d (chunks_of sigs)))"
proof -
  define r0 where "r0 = start iconv st enc len lm"
  have l0: "listeners r0 \<noteq> []"
  proof
    assume e: "listeners r0 = []"
    have "inv r0"
      unfolding r0_def using start_phase [of iconv st enc len lm] by (auto simp: inv_def)
    then have "listeners (run record_call r0 sigs) = []"
      using e by (rule run_silent)
    then show False
      using assms by (simp add: r0_def)
  qed
  from start_reading [OF l0 [unfolded r0_def]] obtain dec where
    dec: "getDecoder iconv enc = Inr dec"
    and eq: "r0 = \<lparr>stream = st, listeners = all_listeners, length' = len, limit = lm,
        complete = False, sync = False, received = 0, decoder = dec,
        buffer = (if dec \<noteq> None then BString [] else BArray []), pending = [],
        uncaught = [], world = []\<rparr>"
    unfolding r0_def by blast
  have rd0: "reading r0"
    by (cases dec) (simp_all add: eq reading_def)
  note rr = reading_run [OF rd0 assms [folded r0_def]]
  have f: "stream r0 = st" "limit r0 = lm" "length' r0 = len" "received r0 = 0"
    "decoder r0 = dec" "buffer r0 = (if dec \<noteq> None then BString [] else BArray [])"
    by (simp_all add: eq)
  show ?thesis
  proof (rule that [OF dec])
    show "reading (run record_call (start iconv st enc len lm) sigs)"
      using rr by (simp add: r0_def)
    show "stream (run record_call (start iconv st enc len lm) sigs) = st"
      using rr f by (simp add: r0_def)
    show "limit (run record_call (start iconv st enc len lm) sigs) = lm"
      using rr f by (simp add: r0_def)
    show "length' (run record_call (start iconv st enc len lm) sigs) = len"
      using rr f by (simp add: r0_def)
    show "received (run record_call (start iconv st enc len lm) sigs) =
           sum_list (map length (chunks_of sigs))"
      using rr f by (simp add: r0_def)
    show "decoder (run record_call (start iconv st enc len lm) sigs) =
           map_option (\<lambda>d. feed d (chunks_of sigs)) dec"
      using rr f by (cases dec) (simp_all add: r0_def)
    show "buffer (run record_call (start iconv st enc len lm) sigs) =
           (case dec of None \<Rightarrow> BArray (chunks_of sigs)
            | Some d \<Rightarrow> BString (fed_text d (chunks_of sigs)))"
      using rr f by (cases dec) (simp_all add: r0_def)
  qed
qed


lemma outcomes_finish: "world r = [] \<Longrightarrow> outcomes (finish a r) = [a]"
  by (simp add: outcomes_def finish_def)




lemma halt_flags:
  "has_unpipe st \<Longrightarrow> unpiped (halt st)" "has_pause st \<Longrightarrow> paused (halt st)"
  by (simp_all add: halt_def Let_def)

lemma stream_finish_error: "stream (finish (Some e, p) r) = halt (stream r)"
  by (simp add: finish_def)

lemma finish_complete: "complete (finish a r)" "pending (finish a r) = pending r"
  by (simp_all add: finish_def)

text \<open>
  Claim C2. In every state that a read with limit \<open>lm\<close> reaches while it is still
  listening, a chunk that takes the count of received bytes over the limit makes
  the read fail with the entity-too-large error that carries the limit and the
  count including this chunk; the stream is halted (\<open>unpipe\<close> and \<open>pause\<close> are called
  where the stream has them), the listeners are gone, and whatever follows,
  further chunks included, leaves the state as it is. The count is the sum of
  the lengths of the chunks received.
\<close>

theorem data_over_limit_halts:
  assumes "r = run record_call (start iconv st enc len (Some lm)) sigs"
    and "listeners r \<noteq> []"
    and "js_gt (Fin (of_nat (received r + length chunk))) lm"
  shows "outcomes (emit record_call (Data chunk) r) =
           [(Some (EntityTooLarge_received lm (received r + length chunk)), None)] \<and>
         received r = sum_list (map length (chunks_of sigs)) \<and>
         (has_unpipe st \<longrightarrow> unpiped (stream (emit record_call (Data chunk) r))) \<and>
         (has_pause st \<longrightarrow> paused (stream (emit record_call (Data chunk) r))) \<and>
         listeners (emit record_call (Data chunk) r) = [] \<and>
         (\<forall>sigs'. run record_call (emit record_call (Data chunk) r) sigs' =
                   emit record_call (Data chunk) r)"
proof -
  from assms(2) obtain dec where rd: "reading r" and st: "stream r = st"
    and lm: "limit r = Some lm" and rc: "received r = sum_list (map length (chunks_of sigs))"
    unfolding assms(1) by (rule run_reading)
  have over: "over_limit r chunk"
    using assms(3) lm by (simp add: over_limit_def)
  have w: "world (r\<lparr>received := received r + length chunk\<rparr>) = []"
    using reading_facts(5) [OF rd] by simp
  have p: "pending r = []"
    by (rule reading_facts(4) [OF rd])
  have eq: "emit record_call (Data chunk) r =
     finish (Some (EntityTooLarge_received lm (received r + length chunk)), None)
       (r\<lparr>received := received r + length chunk\<rparr>)"
    using onData_over [OF rd over] lm by (simp add: EntityTooLarge_received_def)
  have "run record_call (emit record_call (Data chunk) r) sigs' = emit record_call (Data chunk) r"
    for sigs'
    unfolding eq by (rule run_absorbed) (simp_all add: finish_silent finish_complete p)
  moreover have "outcomes (emit record_call (Data chunk) r) =
           [(Some (EntityTooLarge_received lm (received r + length chunk)), None)]"
    unfolding eq by (rule outcomes_finish [OF w])
  moreover have "stream (emit record_call (Data chunk) r) = halt st"
    unfolding eq using st by (simp add: stream_finish_error)
  moreover have "listeners (emit record_call (Data chunk) r) = []"
    unfolding eq by (rule finish_silent)
  ultimately show ?thesis
    using rc by (simp add: halt_flags)
qed

text \<open>The theorem of C2 on the scenario of the specification: limit 10, a chunk of
  8 bytes, then a chunk of 7 bytes; a third chunk and the end are not processed.\<close>

theorem data_over_limit_halts_witness:
  "let r = run record_call (start example_iconv node_stream None None (Some (Fin 10)))
             [Emit (Data [1, 2, 3, 4, 5, 6, 7, 8])];
       r' = emit record_call (Data [9, 10, 11, 12, 13, 14, 15]) r
   in listeners r \<noteq> [] \<and> received r = 8 \<and>
      js_gt (Fin (of_nat (received r + length [9, 10, 11, 12, 13, 14, 15 :: byte]))) (Fin 10) \<and>
      outcomes r' = [(Some (EntityTooLarge_received (Fin 10) 15), None)] \<and>
      unpiped (stream r') \<and> paused (stream r') \<and> listeners r' = [] \<and>
      run record_call r' [Emit (Data [16]), Emit End, Tick] = r'"
proof -
  define r where "r = run record_call (start example_iconv node_stream None None (Some (Fin 10)))
             [Emit (Data [1, 2, 3, 4, 5, 6, 7, 8])]"
  have h: "listeners r \<noteq> []" "received r = 8"
    "js_gt (Fin (of_nat (received r + length [9, 10, 11, 12, 13, 14, 15 :: byte]))) (Fin 10)"
    "has_unpipe node_stream" "has_pause node_stream"
    unfolding r_def by code_simp+
  show ?thesis
    using data_over_limit_halts [OF r_def h(1) h(3)] h unfolding Let_def r_def [symmetric]
    by simp
qed

text \<open>
  Claim C3. When an expected length and a limit are configured and the expected
  length is over the limit, \<open>readStream\<close> returns with the read complete and failed:
  the entity-too-large error with the expected length and the limit is scheduled,
  no listener was attached, nothing was received, the stream is untouched, every
  stream event that follows is ignored, and the next tick delivers the error.
\<close>

theorem fast_path_rejects:
  assumes "js_gt len lm"
  shows "let r = start iconv st enc (Some len) (Some lm)
         in complete r \<and> listeners r = [] \<and> received r = 0 \<and> stream r = st \<and>
            outcomes r = [] \<and> pending r = [(Some (EntityTooLarge_expected len lm), None)] \<and>
            (\<forall>evs. run record_call r (map Emit evs) = r) \<and>
            outcomes (tick record_call r) = [(Some (EntityTooLarge_expected len lm), None)]"
proof -
  have eq: "start iconv st enc (Some len) (Some lm) =
     \<lparr>stream = st, listeners = [], length' = Some len, limit = Some lm, complete = True,
      sync = True, received = 0, decoder = None, buffer = BUndefined,
      pending = [(Some (EntityTooLarge_expected len lm), None)], uncaught = [], world = []\<rparr>"
    using assms
    by (simp add: start_def readStream_def done_sync EntityTooLarge_expected_def)
  show ?thesis
    unfolding Let_def eq
    by (simp add: outcomes_def run_events_ignored tick_def invoke_none)
qed

text \<open>The theorem of C3 at expected length 100 and limit 10.\<close>

theorem fast_path_rejects_witness:
  "js_gt (Fin 100) (Fin 10) \<and>
   (let r = start example_iconv node_stream (Some ''latin1'') (Some (Fin 100)) (Some (Fin 10))
    in complete r \<and> listeners r = [] \<and> received r = 0 \<and> outcomes r = [] \<and>
       run record_call r (map Emit [Data [1, 2, 3], End]) = r \<and>
       outcomes (tick record_call r) = [(Some (EntityTooLarge_expected (Fin 100) (Fin 10)), None)])"
proof -
  have h: "js_gt (Fin 100) (Fin 10)"
    by simp
  show ?thesis
    using fast_path_rejects [OF h, of example_iconv node_stream "Some ''latin1''"] h
    unfolding Let_def by blast
qed

text \<open>
  Claim C4. In every state that a read reaches while it is still listening, the
  count of received bytes is the sum of the lengths of the chunks received, and the
  end of the stream gives exactly one outcome: with an expected length that
  differs from the count, the size-mismatch error with the expected length and
  the count; otherwise the success whose payload is, with a decoder, the text the
  decoder made of the chunks in order followed by what its \<open>end()\<close> returns, and
  without one the concatenation of the chunks.
\<close>

theorem end_of_stream_outcome:
  assumes "r = run record_call (start iconv st enc len lm) sigs"
    and "listeners r \<noteq> []"
    and "getDecoder iconv enc = Inr dec"
  shows "received r = sum_list (map length (chunks_of sigs)) \<and>
         outcomes (emit record_call End r) =
           [case len of
              Some l \<Rightarrow>
                if js_neq (Fin (of_nat (received r))) l
                then (Some (SizeMismatch l (received r)), None)
                else (None, Some (success_payload dec (chunks_of sigs)))
            | None \<Rightarrow> (None, Some (success_payload dec (chunks_of sigs)))]"
proof -
  from assms(2) obtain dec' where d': "getDecoder iconv enc = Inr dec'"
    and rd: "reading r" and ln: "length' r = len"
    and rc: "received r = sum_list (map length (chunks_of sigs))"
    and dc: "decoder r = map_option (\<lambda>d. feed d (chunks_of sigs)) dec'"
    and bf: "buffer r = (case dec' of None \<Rightarrow> BArray (chunks_of sigs)
                         | Some d \<Rightarrow> BString (fed_text d (chunks_of sigs)))"
    unfolding assms(1) by (rule run_reading)
  have dd: "dec' = dec"
    using d' assms(3) by simp
  note w = reading_facts(5) [OF rd]
  have ok: "outcomes (emit record_call End r) = [(None, Some (success_payload dec (chunks_of sigs)))]"
    if "\<not> size_mismatch r"
  proof (cases dec)
    case None
    then show ?thesis
      using onEnd_raw [OF rd that] dc bf dd
      by (simp add: outcomes_finish [OF w] success_payload_def)
  next
    case (Some d)
    then show ?thesis
      using onEnd_text [OF rd that] dc bf dd
      by (simp add: outcomes_finish [OF w] success_payload_def decoded_text_def)
  qed
  have bad: "outcomes (emit record_call End r) = [(Some (SizeMismatch l (received r)), None)]"
    if "size_mismatch r" "len = Some l" for l
    using onEnd_mismatch [OF rd that(1)] that(2) ln
    by (simp add: outcomes_finish [OF w] SizeMismatch_def)
  show ?thesis
  proof (cases len)
    case None
    then have "\<not> size_mismatch r"
      using ln by (simp add: size_mismatch_def)
    then show ?thesis
      using ok rc None by simp
  next
    case (Some l)
    then show ?thesis
      using ok bad [of l] rc ln by (simp add: size_mismatch_def)
  qed
qed

text \<open>The theorem of C4 on scenarios 1 and 2 of the specification (five bytes
  "hello" with expected length 5 and a decoder; seven bytes with expected length 10)
  and on a read without decoder.\<close>

theorem end_of_stream_outcome_witness:
  "(let r = run record_call (start example_iconv node_stream (Some ''latin1'') (Some (Fin 5)) (Some (Fin 100)))
              [Emit (Data [104, 101, 108]), Emit (Data [108, 111])]
    in listeners r \<noteq> [] \<and> getDecoder example_iconv (Some ''latin1'') = Inr (Some latin1_decoder) \<and>
       received r = 5 \<and> outcomes (emit record_call End r) = [(None, Some (Text ''hello''))]) \<and>
   (let r = run record_call (start example_iconv node_stream None (Some (Fin 10)) None)
              [Emit (Data [1, 2, 3]), Tick, Emit (Data [4, 5, 6, 7])]
    in listeners r \<noteq> [] \<and> getDecoder example_iconv None = Inr None \<and>
       received r = 7 \<and> outcomes (emit record_call End r) = [(Some (SizeMismatch (Fin 10) 7), None)]) \<and>
   (let r = run record_call (start example_iconv node_stream None None None)
              [Emit (Data [1, 2, 3]), Emit (Data [4, 5])]
    in listeners r \<noteq> [] \<and>
       outcomes (emit record_call End r) = [(None, Some (Bytes [1, 2, 3, 4, 5]))])"
proof -
  define r1 where "r1 = run record_call (start example_iconv node_stream (Some ''latin1'') (Some (Fin 5)) (Some (Fin 100)))
              [Emit (Data [104, 101, 108]), Emit (Data [108, 111])]"
  define r2 where "r2 = run record_call (start example_iconv node_stream None (Some (Fin 10)) None)
              [Emit (Data [1, 2, 3]), Tick, Emit (Data [4, 5, 6, 7])]"
  define r3 where "r3 = run record_call (start example_iconv node_stream None None None)
              [Emit (Data [1, 2, 3]), Emit (Data [4, 5])]"
  have l: "listeners r1 \<noteq> []" "listeners r2 \<noteq> []" "listeners r3 \<noteq> []"
    unfolding r1_def r2_def r3_def by code_simp+
  have g: "getDecoder example_iconv (Some ''latin1'') = Inr (Some latin1_decoder)"
    "getDecoder example_iconv None = Inr None"
    by (simp_all add: getDecoder_def example_iconv_def)
  have v: "success_payload (Some latin1_decoder) [[104, 101, 108], [108, 111]] = Text ''hello''"
    "success_payload (None :: byte list decoder option) [[1, 2, 3], [4, 5]] = Bytes [1, 2, 3, 4, 5]"
    by code_simp+
  show ?thesis
    using end_of_stream_outcome [OF r1_def l(1) g(1)] end_of_stream_outcome [OF r2_def l(2) g(2)]
      end_of_stream_outcome [OF r3_def l(3) g(2)] l g v
    unfolding Let_def r1_def [symmetric] r2_def [symmetric] r3_def [symmetric]
    by (simp add: eval_nat_numeral)
qed



lemma reading_not_closed: "listeners r \<noteq> [] \<Longrightarrow> \<not> closed r"
  by (simp add: closed_def)






lemma readStream_world: "world (readStream iconv callback st enc len lm w) = w"
  by (simp add: readStream_def done_sync on_def Let_def split: option.splits sum.splits)

lemma readStream_stream: "stream (readStream iconv callback st enc len lm w) = st"
  by (simp add: readStream_def done_sync on_def Let_def split: option.splits sum.splits)

lemma start_outcomes: "outcomes (start iconv st enc len lm) = []"
  by (simp add: outcomes_def start_def readStream_world)

text \<open>
  Claim C6. \<open>readStream\<close> never calls the callback before it returns, whatever the
  callback is: the state of the caller is the same after the call as before. When
  it has found a failure during setup (the read is complete when it returns), the
  error waits in the queue of the next tick, and that tick calls the callback with
  it once, with no listener attached; nothing that follows calls it again. This
  covers the declared length over the limit, a stream with an encoding set, and a
  decoder that cannot be had, the unsupported encoding in particular.
\<close>

theorem failure_delivered_after_setup:
  "world (readStream iconv callback st enc len lm w) = w \<and>
   outcomes (start iconv st enc len lm) = [] \<and>
   (complete (start iconv st enc len lm) \<longrightarrow>
      (\<exists>e. pending (start iconv st enc len lm) = [(Some e, None)] \<and>
           world (tick record_call (start iconv st enc len lm)) = [((Some e, None), [], halt st)] \<and>
           (\<forall>sigs. outcomes (run record_call (tick record_call (start iconv st enc len lm)) sigs)
                    = [(Some e, None)]))) \<and>
   (declared_too_large len lm \<longrightarrow>
      complete (start iconv st enc len lm) \<and>
      pending (start iconv st enc len lm) =
        [(Some (createHttpError 413 ''request entity too large''
                 [(''expected'', num_or_null len), (''length'', num_or_null len),
                  (''limit'', num_or_null lm), (''type'', JStr ''entity.too.large'')]), None)]) \<and>
   (\<not> declared_too_large len lm \<and> encoding_set st \<longrightarrow>
      complete (start iconv st enc len lm) \<and>
      pending (start iconv st enc len lm) =
        [(Some (createHttpError 500 ''stream encoding should not be set''
                 [(''type'', JStr ''stream.encoding.set'')]), None)]) \<and>
   (\<not> declared_too_large len lm \<and> \<not> encoding_set st \<and> getDecoder iconv enc = Inl err \<longrightarrow>
      complete (start iconv st enc len lm) \<and>
      pending (start iconv st enc len lm) = [(Some err, None)]) \<and>
   (name \<noteq> [] \<and> iconv name = Throws msg \<and> ICONV_ENCODING_MESSAGE_REGEXP_test msg \<longrightarrow>
      getDecoder iconv (Some name) = Inl (EncodingUnsupported name))"
proof -
  have c: "complete (start iconv st enc len lm) \<longrightarrow>
      (\<exists>e. pending (start iconv st enc len lm) = [(Some e, None)] \<and>
           world (tick record_call (start iconv st enc len lm)) = [((Some e, None), [], halt st)] \<and>
           (\<forall>sigs. outcomes (run record_call (tick record_call (start iconv st enc len lm)) sigs)
                    = [(Some e, None)]))"
  proof
    assume cp: "complete (start iconv st enc len lm)"
    have sc: "scheduled (start iconv st enc len lm)"
      using start_phase [of iconv st enc len lm] cp by (auto simp: reading_def)
    then obtain e where p: "pending (start iconv st enc len lm) = [(Some e, None)]"
      by (rule scheduled_pending)
    have s: "stream (start iconv st enc len lm) = st"
      unfolding start_def by (rule readStream_stream)
    note t = tick_scheduled [OF sc p]
    have "run record_call (tick record_call (start iconv st enc len lm)) sigs
            = tick record_call (start iconv st enc len lm)" for sigs
      by (rule run_absorbed) (use sc in \<open>simp_all add: t scheduled_def\<close>)
    then have "pending (start iconv st enc len lm) = [(Some e, None)] \<and>
           world (tick record_call (start iconv st enc len lm)) = [((Some e, None), [], halt st)] \<and>
           (\<forall>sigs. outcomes (run record_call (tick record_call (start iconv st enc len lm)) sigs)
                    = [(Some e, None)])"
      using p s by (simp add: t outcomes_def)
    then show "\<exists>e. pending (start iconv st enc len lm) = [(Some e, None)] \<and>
           world (tick record_call (start iconv st enc len lm)) = [((Some e, None), [], halt st)] \<and>
           (\<forall>sigs. outcomes (run record_call (tick record_call (start iconv st enc len lm)) sigs)
                    = [(Some e, None)])"
      by (rule exI)
  qed
  have d: "declared_too_large len lm \<longrightarrow>
      complete (start iconv st enc len lm) \<and>
      pending (start iconv st enc len lm) =
        [(Some (createHttpError 413 ''request entity too large''
                 [(''expected'', num_or_null len), (''length'', num_or_null len),
                  (''limit'', num_or_null lm), (''type'', JStr ''entity.too.large'')]), None)]"
    by (simp add: start_def readStream_def done_sync declared_too_large_def)
  have e: "\<not> declared_too_large len lm \<and> encoding_set st \<longrightarrow>
      complete (start iconv st enc len lm) \<and>
      pending (start iconv st enc len lm) =
        [(Some (createHttpError 500 ''stream encoding should not be set''
                 [(''type'', JStr ''stream.encoding.set'')]), None)]"
    by (simp add: start_def readStream_def done_sync declared_too_large_def encoding_set_def)
  have f: "\<not> declared_too_large len lm \<and> \<not> encoding_set st \<and> getDecoder iconv enc = Inl err \<longrightarrow>
      complete (start iconv st enc len lm) \<and>
      pending (start iconv st enc len lm) = [(Some err, None)]"
    by (simp add: start_def readStream_def done_sync declared_too_large_def encoding_set_def)
  have g: "name \<noteq> [] \<and> iconv name = Throws msg \<and> ICONV_ENCODING_MESSAGE_REGEXP_test msg \<longrightarrow>
      getDecoder iconv (Some name) = Inl (EncodingUnsupported name)"
    by (simp add: getDecoder_def EncodingUnsupported_def)
  from readStream_world start_outcomes c d e f g show ?thesis
    by (intro conjI) assumption+
qed

text \<open>The theorem of C6 on a read with expected length 100 and limit 10 and on a
  read that asks for the encoding \<open>utf-7\<close>, which the example library does not have.\<close>

theorem failure_delivered_after_setup_witness:
  "complete (start example_iconv node_stream None (Some (Fin 100)) (Some (Fin 10))) \<and>
   declared_too_large (Some (Fin 100)) (Some (Fin 10)) \<and>
   outcomes (start example_iconv node_stream None (Some (Fin 100)) (Some (Fin 10))) = [] \<and>
   outcomes (run record_call (tick record_call
       (start example_iconv node_stream None (Some (Fin 100)) (Some (Fin 10)))) [Tick, Emit End])
     = [(Some (EntityTooLarge_expected (Fin 100) (Fin 10)), None)] \<and>
   (\<not> declared_too_large None None \<and> \<not> encoding_set node_stream \<and>
    ''utf-7'' \<noteq> [] \<and> example_iconv ''utf-7'' = Throws ''Encoding not recognized: utf-7'' \<and>
    ICONV_ENCODING_MESSAGE_REGEXP_test ''Encoding not recognized: utf-7'') \<and>
   getDecoder example_iconv (Some ''utf-7'') = Inl (EncodingUnsupported ''utf-7'') \<and>
   complete (start example_iconv node_stream (Some ''utf-7'') None None) \<and>
   pending (start example_iconv node_stream (Some ''utf-7'') None None)
     = [(Some (EncodingUnsupported ''utf-7''), None)] \<and>
   outcomes (start example_iconv node_stream (Some ''utf-7'') None None) = []"
proof -
  have h1: "declared_too_large (Some (Fin 100)) (Some (Fin 10))"
    by (simp add: declared_too_large_def)
  have h2: "\<not> declared_too_large None None \<and> \<not> encoding_set node_stream \<and>
    ''utf-7'' \<noteq> [] \<and> example_iconv ''utf-7'' = Throws ''Encoding not recognized: utf-7'' \<and>
    ICONV_ENCODING_MESSAGE_REGEXP_test ''Encoding not recognized: utf-7''"
    by (simp add: declared_too_large_def encoding_set_def node_stream_def example_iconv_def
        ICONV_ENCODING_MESSAGE_REGEXP_test_def)
  note t1 = failure_delivered_after_setup [where iconv = example_iconv and st = node_stream
      and enc = None and len = "Some (Fin 100)" and lm = "Some (Fin 10)"
      and callback = record_call and w = "[]" and name = "''utf-7''"
      and msg = "''Encoding not recognized: utf-7''" and err = "EncodingUnsupported ''utf-7''"]
  note t2 = failure_delivered_after_setup [where iconv = example_iconv and st = node_stream
      and enc = "Some ''utf-7''" and len = None and lm = None
      and callback = record_call and w = "[]" and name = "''utf-7''"
      and msg = "''Encoding not recognized: utf-7''" and err = "EncodingUnsupported ''utf-7''"]
  have c1: "complete (start example_iconv node_stream None (Some (Fin 100)) (Some (Fin 10)))"
    using t1 h1 by simp
  have p1: "pending (start example_iconv node_stream None (Some (Fin 100)) (Some (Fin 10))) =
      [(Some (EntityTooLarge_expected (Fin 100) (Fin 10)), None)]"
    using t1 h1 by (simp add: EntityTooLarge_expected_def)
  have o1: "outcomes (run record_call (tick record_call
       (start example_iconv node_stream None (Some (Fin 100)) (Some (Fin 10)))) [Tick, Emit End])
     = [(Some (EntityTooLarge_expected (Fin 100) (Fin 10)), None)]"
    using t1 c1 p1 by simp
  have g2: "getDecoder example_iconv (Some ''utf-7'') = Inl (EncodingUnsupported ''utf-7'')"
    using t2 h2 by simp
  have c2: "complete (start example_iconv node_stream (Some ''utf-7'') None None) \<and>
   pending (start example_iconv node_stream (Some ''utf-7'') None None)
     = [(Some (EncodingUnsupported ''utf-7''), None)] \<and>
   outcomes (start example_iconv node_stream (Some ''utf-7'') None None) = []"
    using t2 h2 g2 by simp
  show ?thesis
    using h1 h2 c1 o1 g2 c2 t1 by simp
qed

section \<open>The orchestrator: proofs\<close>

lemma lower_identity: "toLowerCase ''identity'' = ''identity''"
  by code_simp

lemma readStream_length: "length' (readStream iconv callback st enc len lm w) = len"
  by (simp add: readStream_def done_sync on_def Let_def split: option.splits sum.splits)

lemma getRawBody_readStream:
  "getRawBody iconv callback st \<lparr>opt_length = h, opt_limit = v, opt_encoding = Enc e\<rparr> w =
     readStream iconv callback st e (expected_length_of h) (limit_of v) w"
  by (simp add: getRawBody_def expected_length_of_def limit_of_def)

lemma read_Reading:
  assumes "read iconv req parse_body opts w = Reading r"
  obtains cs where "contentstream req (o_inflate opts) = Inr cs"
    and "r = readStream iconv (on_body iconv (o_encoding opts) (o_verify opts) parse_body)
               (cs_stream cs) (if o_verify opts \<noteq> None then None else o_encoding opts)
               (expected_length_of (cs_length cs)) (limit_of (o_limit opts))
               (w\<lparr>req_body_parsed := True\<rparr>)"
  using assms
  by (auto simp: read_def Let_def getRawBody_readStream split: sum.splits option.splits if_splits)

text \<open>
  Claim C5. The content stream is chosen from the encoding token (the header
  \<open>content-encoding\<close> in lower case, \<open>identity\<close> when the header is absent or empty)
  and the flag \<open>inflate\<close> alone. With \<open>inflate\<close> false and a token other than
  \<open>identity\<close> the call fails with the unsupported-encoding error. For \<open>identity\<close> it
  returns the request itself with the declared length set on it. For \<open>gzip\<close> and
  \<open>deflate\<close> it returns a decompression stream that the request is piped into,
  with no length. For any other token it fails with the unsupported-encoding error
  that names the token. The accumulator that \<open>read\<close> starts gets the declared
  length as its expected length for \<open>identity\<close> and none for \<open>gzip\<close> and \<open>deflate\<close>,
  so that it makes no length check there.
\<close>

theorem contentstream_routes:
  "(inflate = Some False \<and> encoding_token req \<noteq> ''identity'' \<longrightarrow>
      contentstream req inflate =
        Inl (HttpError 415 ''content encoding unsupported''
               [(''encoding'', JStr (encoding_token req)), (''type'', JStr ''encoding.unsupported'')])) \<and>
   (encoding_token req = ''identity'' \<longrightarrow>
      contentstream req inflate =
        Inr \<lparr>cs_kind = Identity, cs_piped = False, cs_length = headers req ''content-length'',
             cs_stream = req_stream req\<rparr>) \<and>
   (inflate \<noteq> Some False \<and> encoding_token req = ''gzip'' \<longrightarrow>
      contentstream req inflate =
        Inr \<lparr>cs_kind = Gunzip, cs_piped = True, cs_length = None, cs_stream = zlib_stream\<rparr>) \<and>
   (inflate \<noteq> Some False \<and> encoding_token req = ''deflate'' \<longrightarrow>
      contentstream req inflate =
        Inr \<lparr>cs_kind = Inflate, cs_piped = True, cs_length = None, cs_stream = zlib_stream\<rparr>) \<and>
   (inflate \<noteq> Some False \<and> encoding_token req \<notin> {''identity'', ''gzip'', ''deflate''} \<longrightarrow>
      contentstream req inflate =
        Inl (HttpError 415 (''unsupported content encoding \"'' @ encoding_token req @ ''\"'')
               [(''encoding'', JStr (encoding_token req)), (''type'', JStr ''encoding.unsupported'')])) \<and>
   (headers req ''content-encoding'' = None \<longrightarrow> encoding_token req = ''identity'') \<and>
   (read iconv req parse_body opts w = Reading r \<and> encoding_token req = ''identity'' \<longrightarrow>
      length' r = expected_length_of (headers req ''content-length'')) \<and>
   (read iconv req parse_body opts w = Reading r \<and> encoding_token req \<in> {''gzip'', ''deflate''} \<longrightarrow>
      length' r = None)"
proof -
  have a: "inflate = Some False \<and> encoding_token req \<noteq> ''identity'' \<longrightarrow>
      contentstream req inflate =
        Inl (HttpError 415 ''content encoding unsupported''
               [(''encoding'', JStr (encoding_token req)), (''type'', JStr ''encoding.unsupported'')])" for inflate
    by (simp add: contentstream_def encoding_token_def Let_def)
  have b: "encoding_token req = ''identity'' \<longrightarrow>
      contentstream req inflate =
        Inr \<lparr>cs_kind = Identity, cs_piped = False, cs_length = headers req ''content-length'',
             cs_stream = req_stream req\<rparr>" for inflate
    by (simp add: contentstream_def encoding_token_def Let_def)
  have c: "inflate \<noteq> Some False \<and> encoding_token req = ''gzip'' \<longrightarrow>
      contentstream req inflate =
        Inr \<lparr>cs_kind = Gunzip, cs_piped = True, cs_length = None, cs_stream = zlib_stream\<rparr>" for inflate
    by (simp add: contentstream_def encoding_token_def Let_def)
  have d: "inflate \<noteq> Some False \<and> encoding_token req = ''deflate'' \<longrightarrow>
      contentstream req inflate =
        Inr \<lparr>cs_kind = Inflate, cs_piped = True, cs_length = None, cs_stream = zlib_stream\<rparr>" for inflate
    by (simp add: contentstream_def encoding_token_def Let_def)
  have e: "inflate \<noteq> Some False \<and> encoding_token req \<notin> {''identity'', ''gzip'', ''deflate''} \<longrightarrow>
      contentstream req inflate =
        Inl (HttpError 415 (''unsupported content encoding \"'' @ encoding_token req @ ''\"'')
               [(''encoding'', JStr (encoding_token req)), (''type'', JStr ''encoding.unsupported'')])" for inflate
    by (simp add: contentstream_def encoding_token_def Let_def)
  have f: "headers req ''content-encoding'' = None \<longrightarrow> encoding_token req = ''identity''"
    by (simp add: encoding_token_def lower_identity)
  have g: "read iconv req parse_body opts w = Reading r \<and> encoding_token req = ''identity'' \<longrightarrow>
      length' r = expected_length_of (headers req ''content-length'')"
  proof
    assume h: "read iconv req parse_body opts w = Reading r \<and> encoding_token req = ''identity''"
    then obtain cs where cs: "contentstream req (o_inflate opts) = Inr cs"
      and r: "r = readStream iconv (on_body iconv (o_encoding opts) (o_verify opts) parse_body)
               (cs_stream cs) (if o_verify opts \<noteq> None then None else o_encoding opts)
               (expected_length_of (cs_length cs)) (limit_of (o_limit opts))
               (w\<lparr>req_body_parsed := True\<rparr>)"
      by (blast elim: read_Reading)
    have "cs_length cs = headers req ''content-length''"
      using b [of "o_inflate opts"] h cs by simp
    then show "length' r = expected_length_of (headers req ''content-length'')"
      by (simp add: r readStream_length)
  qed
  have i: "read iconv req parse_body opts w = Reading r \<and> encoding_token req \<in> {''gzip'', ''deflate''} \<longrightarrow>
      length' r = None"
  proof
    assume h: "read iconv req parse_body opts w = Reading r \<and> encoding_token req \<in> {''gzip'', ''deflate''}"
    then obtain cs where cs: "contentstream req (o_inflate opts) = Inr cs"
      and r: "r = readStream iconv (on_body iconv (o_encoding opts) (o_verify opts) parse_body)
               (cs_stream cs) (if o_verify opts \<noteq> None then None else o_encoding opts)
               (expected_length_of (cs_length cs)) (limit_of (o_limit opts))
               (w\<lparr>req_body_parsed := True\<rparr>)"
      by (blast elim: read_Reading)
    have ni: "encoding_token req \<noteq> ''identity''"
      using h by auto
    have "o_inflate opts \<noteq> Some False"
      using a [of "o_inflate opts"] cs ni
      by (auto simp: contentstream_def encoding_token_def Let_def)
    then have "cs_length cs = None"
      using c [of "o_inflate opts"] d [of "o_inflate opts"] h cs by auto
    then show "length' r = None"
      by (simp add: r readStream_length expected_length_of_def)
  qed
  from a [of inflate] b [of inflate] c [of inflate] d [of inflate] e [of inflate] f g i
  show ?thesis
    by (intro conjI) assumption+
qed

text \<open>The theorem of C5 on requests with the encodings \<open>BR\<close> (scenario 3 of the
  specification), none, \<open>GZip\<close> and \<open>deflate\<close>, each with a declared length of 5.\<close>

theorem contentstream_routes_witness:
  "encoding_token (example_request [(''content-encoding'', ''BR'')]) = ''br'' \<and>
   contentstream (example_request [(''content-encoding'', ''BR'')]) (Some False) =
     Inl (HttpError 415 ''content encoding unsupported''
            [(''encoding'', JStr ''br''), (''type'', JStr ''encoding.unsupported'')]) \<and>
   contentstream (example_request [(''content-encoding'', ''BR'')]) None =
     Inl (HttpError 415 ''unsupported content encoding \"br\"''
            [(''encoding'', JStr ''br''), (''type'', JStr ''encoding.unsupported'')]) \<and>
   headers (example_request [(''content-length'', ''5'')]) ''content-encoding'' = None \<and>
   encoding_token (example_request [(''content-length'', ''5'')]) = ''identity'' \<and>
   contentstream (example_request [(''content-length'', ''5'')]) (Some False) =
     Inr \<lparr>cs_kind = Identity, cs_piped = False, cs_length = Some ''5'', cs_stream = node_stream\<rparr> \<and>
   encoding_token (example_request [(''content-encoding'', ''GZip''), (''content-length'', ''5'')]) = ''gzip'' \<and>
   contentstream (example_request [(''content-encoding'', ''GZip''), (''content-length'', ''5'')]) None =
     Inr \<lparr>cs_kind = Gunzip, cs_piped = True, cs_length = None, cs_stream = zlib_stream\<rparr> \<and>
   encoding_token (example_request [(''content-encoding'', ''deflate''), (''content-length'', ''5'')]) = ''deflate'' \<and>
   contentstream (example_request [(''content-encoding'', ''deflate''), (''content-length'', ''5'')]) (Some True) =
     Inr \<lparr>cs_kind = Inflate, cs_piped = True, cs_length = None, cs_stream = zlib_stream\<rparr> \<and>
   (case read example_iconv (example_request [(''content-length'', ''5'')]) example_parse
           \<lparr>o_encoding = None, o_inflate = None, o_limit = JStr ''1kb'', o_verify = None\<rparr> world0 of
      Reading r \<Rightarrow> length' r = Some (Fin 5) | Returned w \<Rightarrow> False) \<and>
   (case read example_iconv (example_request [(''content-encoding'', ''GZip''), (''content-length'', ''5'')])
           example_parse
           \<lparr>o_encoding = None, o_inflate = None, o_limit = JStr ''1kb'', o_verify = None\<rparr> world0 of
      Reading r \<Rightarrow> length' r = None | Returned w \<Rightarrow> False)"
proof -
  define reqB where "reqB = example_request [(''content-encoding'', ''BR'')]"
  define reqI where "reqI = example_request [(''content-length'', ''5'')]"
  define reqG where "reqG = example_request [(''content-encoding'', ''GZip''), (''content-length'', ''5'')]"
  define reqD where "reqD = example_request [(''content-encoding'', ''deflate''), (''content-length'', ''5'')]"
  define opts where "opts = \<lparr>o_encoding = None, o_inflate = None, o_limit = JStr ''1kb'', o_verify = None\<rparr>"
  have tok: "encoding_token reqB = ''br''" "encoding_token reqI = ''identity''"
    "encoding_token reqG = ''gzip''" "encoding_token reqD = ''deflate''"
    unfolding reqB_def reqI_def reqG_def reqD_def by code_simp+
  have hd: "headers reqI ''content-encoding'' = None" "headers reqI ''content-length'' = Some ''5''"
    "req_stream reqI = node_stream"
    unfolding reqI_def by (simp_all add: example_request_def)
  have len: "expected_length_of (Some ''5'') = Some (Fin 5)"
    by code_simp
  have "case read example_iconv reqI example_parse opts world0 of Reading r \<Rightarrow> True | Returned w \<Rightarrow> False"
    unfolding reqI_def opts_def by code_simp
  then obtain rI where rI: "read example_iconv reqI example_parse opts world0 = Reading rI"
    by (auto split: reading.splits)
  have "case read example_iconv reqG example_parse opts world0 of Reading r \<Rightarrow> True | Returned w \<Rightarrow> False"
    unfolding reqG_def opts_def by code_simp
  then obtain rG where rG: "read example_iconv reqG example_parse opts world0 = Reading rG"
    by (auto split: reading.splits)
  note t1 = contentstream_routes [where req = reqB and inflate = "Some False" and iconv = example_iconv
      and parse_body = example_parse and opts = opts and w = world0 and r = rI]
  note t2 = contentstream_routes [where req = reqB and inflate = None and iconv = example_iconv
      and parse_body = example_parse and opts = opts and w = world0 and r = rI]
  note t3 = contentstream_routes [where req = reqI and inflate = "Some False" and iconv = example_iconv
      and parse_body = example_parse and opts = opts and w = world0 and r = rI]
  note t4 = contentstream_routes [where req = reqG and inflate = None and iconv = example_iconv
      and parse_body = example_parse and opts = opts and w = world0 and r = rG]
  note t5 = contentstream_routes [where req = reqD and inflate = "Some True" and iconv = example_iconv
      and parse_body = example_parse and opts = opts and w = world0 and r = rG]
  have c1: "contentstream reqB (Some False) =
     Inl (HttpError 415 ''content encoding unsupported''
            [(''encoding'', JStr ''br''), (''type'', JStr ''encoding.unsupported'')])"
    using t1 tok by simp
  have c2: "contentstream reqB None =
     Inl (HttpError 415 ''unsupported content encoding \"br\"''
            [(''encoding'', JStr ''br''), (''type'', JStr ''encoding.unsupported'')])"
    using t2 tok by simp
  have c3: "contentstream reqI (Some False) =
     Inr \<lparr>cs_kind = Identity, cs_piped = False, cs_length = Some ''5'', cs_stream = node_stream\<rparr>"
    using t3 tok hd by simp
  have c4: "contentstream reqG None =
     Inr \<lparr>cs_kind = Gunzip, cs_piped = True, cs_length = None, cs_stream = zlib_stream\<rparr>"
    using t4 tok by simp
  have c5: "contentstream reqD (Some True) =
     Inr \<lparr>cs_kind = Inflate, cs_piped = True, cs_length = None, cs_stream = zlib_stream\<rparr>"
    using t5 tok by simp
  have l1: "length' rI = Some (Fin 5)"
    using t3 tok hd rI len by simp
  have l2: "length' rG = None"
    using t4 tok rG by simp
  show ?thesis
    using tok hd c1 c2 c3 c4 c5 l1 l2 rI rG
    unfolding reqB_def [symmetric] reqI_def [symmetric] reqG_def [symmetric] reqD_def [symmetric]
      opts_def [symmetric]
    by simp
qed















end
